theory Spec2Isabelle
  imports Main "HOL-Library.Word"
begin

unbundle bit_operations_syntax

section \<open>Bitcoin transaction primitives (primitives/transaction.h)\<close>

subsection \<open>Scalar types and errors\<close>

type_synonym byte = "8 word"
type_synonym uint32_t = "32 word"
type_synonym int32_t = "32 word"
type_synonym uint256 = "256 word"
type_synonym CAmount = "64 word"
type_synonym CScript = "byte list"

text \<open>
  Every failure of the code is a \<open>std::ios_base::failure\<close> carrying a message: the one
  thrown by \<open>UnserializeTransaction\<close> itself, and those of the stream collaborator.
\<close>

datatype error = ios_base_failure string

definition unknown_optional_data :: error where
  "unknown_optional_data = ios_base_failure ''Unknown transaction optional data''"

definition end_of_data :: error where
  "end_of_data = ios_base_failure ''CDataStream::read(): end of data''"

definition non_canonical :: error where
  "non_canonical = ios_base_failure ''non-canonical ReadCompactSize()''"

definition size_too_large :: error where
  "size_too_large = ios_base_failure ''ReadCompactSize(): size too large''"

type_synonym 'a result = "error + ('a \<times> byte list)"

definition SERIALIZE_TRANSACTION_NO_WITNESS :: int32_t where
  "SERIALIZE_TRANSACTION_NO_WITNESS = 0x40000000"

subsection \<open>The stream collaborator\<close>

text \<open>
  Modelled from the spec: serialize.h, uint256.h and script.h (the stream primitives, the
  256-bit blob, \<open>CScript\<close> and \<open>CScriptWitness\<close>) are not part of the sources at hand.
  Section 6 of the specification fixes the widths (4-byte little-endian version, index,
  sequence and locktime, 32-byte hash, 8-byte amount) and calls scripts, sequences and
  witness stacks length-prefixed; the prefix is the CompactSize of the format (one byte
  below 253, else a marker byte 253, 254 or 255 and 2, 4 or 8 little-endian bytes), read
  back only in its shortest form and only up to \<open>MAX_SIZE\<close>. A read past the end of
  the stream fails.
\<close>

fun le_bytes :: "nat \<Rightarrow> 'a::len word \<Rightarrow> byte list" where
  "le_bytes 0 w = []"
| "le_bytes (Suc n) w = ucast w # le_bytes n (drop_bit 8 w)"

fun le_word :: "byte list \<Rightarrow> 'a::len word" where
  "le_word [] = 0"
| "le_word (b # bs) = ucast b OR push_bit 8 (le_word bs)"

definition stream_read :: "nat \<Rightarrow> byte list \<Rightarrow> (byte list) result" where
  "stream_read n s = (if length s < n then Inl end_of_data else Inr (take n s, drop n s))"

definition read_le :: "nat \<Rightarrow> byte list \<Rightarrow> ('a::len word) result" where
  "read_le n s = (case stream_read n s of Inl e \<Rightarrow> Inl e | Inr (bs, s') \<Rightarrow> Inr (le_word bs, s'))"

definition ser_writedata8 :: "byte \<Rightarrow> byte list" where
  "ser_writedata8 b = [b]"

definition ser_writedata16 :: "16 word \<Rightarrow> byte list" where
  "ser_writedata16 w = le_bytes 2 w"

definition ser_writedata32 :: "32 word \<Rightarrow> byte list" where
  "ser_writedata32 w = le_bytes 4 w"

definition ser_writedata64 :: "64 word \<Rightarrow> byte list" where
  "ser_writedata64 w = le_bytes 8 w"

definition ser_readdata8 :: "byte list \<Rightarrow> byte result" where
  "ser_readdata8 s = read_le 1 s"

definition ser_readdata16 :: "byte list \<Rightarrow> (16 word) result" where
  "ser_readdata16 s = read_le 2 s"

definition ser_readdata32 :: "byte list \<Rightarrow> (32 word) result" where
  "ser_readdata32 s = read_le 4 s"

definition ser_readdata64 :: "byte list \<Rightarrow> (64 word) result" where
  "ser_readdata64 s = read_le 8 s"

definition Serialize_uint256 :: "uint256 \<Rightarrow> byte list" where
  "Serialize_uint256 h = le_bytes 32 h"

definition Unserialize_uint256 :: "byte list \<Rightarrow> uint256 result" where
  "Unserialize_uint256 s = read_le 32 s"

definition MAX_SIZE :: nat where
  "MAX_SIZE = 0x02000000"

definition WriteCompactSize :: "nat \<Rightarrow> byte list" where
  "WriteCompactSize nSize =
     (if nSize < 253 then ser_writedata8 (of_nat nSize)
      else if nSize \<le> 0xFFFF then ser_writedata8 253 @ ser_writedata16 (of_nat nSize)
      else if nSize \<le> 0xFFFFFFFF then ser_writedata8 254 @ ser_writedata32 (of_nat nSize)
      else ser_writedata8 255 @ ser_writedata64 (of_nat nSize))"

definition ReadCompactSize_raw :: "byte list \<Rightarrow> nat result" where
  "ReadCompactSize_raw s =
     (case ser_readdata8 s of Inl e \<Rightarrow> Inl e | Inr (chSize, s1) \<Rightarrow>
        if chSize < 253 then Inr (unat chSize, s1)
        else if chSize = 253 then
          (case ser_readdata16 s1 of Inl e \<Rightarrow> Inl e | Inr (x, s2) \<Rightarrow>
             if unat x < 253 then Inl non_canonical else Inr (unat x, s2))
        else if chSize = 254 then
          (case ser_readdata32 s1 of Inl e \<Rightarrow> Inl e | Inr (x, s2) \<Rightarrow>
             if unat x < 0x10000 then Inl non_canonical else Inr (unat x, s2))
        else
          (case ser_readdata64 s1 of Inl e \<Rightarrow> Inl e | Inr (x, s2) \<Rightarrow>
             if unat x < 0x100000000 then Inl non_canonical else Inr (unat x, s2)))"

definition ReadCompactSize :: "byte list \<Rightarrow> nat result" where
  "ReadCompactSize s =
     (case ReadCompactSize_raw s of Inl e \<Rightarrow> Inl e | Inr (nSizeRet, s') \<Rightarrow>
        if nSizeRet > MAX_SIZE then Inl size_too_large else Inr (nSizeRet, s'))"

text \<open>A byte vector (a script, a witness item): its CompactSize, then its bytes.\<close>

definition Serialize_bytes :: "byte list \<Rightarrow> byte list" where
  "Serialize_bytes v = WriteCompactSize (length v) @ v"

definition Unserialize_bytes :: "byte list \<Rightarrow> (byte list) result" where
  "Unserialize_bytes s =
     (case ReadCompactSize s of Inl e \<Rightarrow> Inl e | Inr (nSize, s1) \<Rightarrow> stream_read nSize s1)"

text \<open>
  A vector of elements: its CompactSize, then each element in order. Reading resizes the
  (cleared) target to default-constructed elements and unserializes into each of them.
\<close>

definition Serialize_vector :: "('a \<Rightarrow> byte list) \<Rightarrow> 'a list \<Rightarrow> byte list" where
  "Serialize_vector ser v = WriteCompactSize (length v) @ concat (map ser v)"

fun Unserialize_elems :: "('a \<Rightarrow> byte list \<Rightarrow> 'a result) \<Rightarrow> 'a \<Rightarrow> nat \<Rightarrow> byte list \<Rightarrow> ('a list) result" where
  "Unserialize_elems unser dflt 0 s = Inr ([], s)"
| "Unserialize_elems unser dflt (Suc n) s =
     (case unser dflt s of Inl e \<Rightarrow> Inl e | Inr (x, s1) \<Rightarrow>
        (case Unserialize_elems unser dflt n s1 of Inl e \<Rightarrow> Inl e
         | Inr (xs, s2) \<Rightarrow> Inr (x # xs, s2)))"

definition Unserialize_vector :: "('a \<Rightarrow> byte list \<Rightarrow> 'a result) \<Rightarrow> 'a \<Rightarrow> byte list \<Rightarrow> ('a list) result" where
  "Unserialize_vector unser dflt s =
     (case ReadCompactSize s of Inl e \<Rightarrow> Inl e
      | Inr (nSize, s1) \<Rightarrow> Unserialize_elems unser dflt nSize s1)"

subsection \<open>COutPoint\<close>

record COutPoint =
  hash :: uint256
  n :: uint32_t

text \<open>\<open>COutPoint(): n((uint32_t) -1)\<close>; the hash member is a zero-initialised blob.\<close>

definition COutPoint_default :: COutPoint where
  "COutPoint_default = \<lparr> hash = 0, n = - 1 \<rparr>"

definition uint256_IsNull :: "uint256 \<Rightarrow> bool" where
  "uint256_IsNull h = (h = 0)"

definition COutPoint_SetNull :: "COutPoint \<Rightarrow> COutPoint" where
  "COutPoint_SetNull p = p\<lparr> hash := 0, n := - 1 \<rparr>"

definition COutPoint_IsNull :: "COutPoint \<Rightarrow> bool" where
  "COutPoint_IsNull p = (uint256_IsNull (hash p) \<and> n p = - 1)"

definition COutPoint_Serialize :: "COutPoint \<Rightarrow> byte list" where
  "COutPoint_Serialize p = Serialize_uint256 (hash p) @ ser_writedata32 (n p)"

definition COutPoint_Unserialize :: "COutPoint \<Rightarrow> byte list \<Rightarrow> COutPoint result" where
  "COutPoint_Unserialize p s =
     (case Unserialize_uint256 s of Inl e \<Rightarrow> Inl e | Inr (h, s1) \<Rightarrow>
        (case ser_readdata32 s1 of Inl e \<Rightarrow> Inl e | Inr (i, s2) \<Rightarrow>
           Inr (p\<lparr> hash := h, n := i \<rparr>, s2)))"

subsection \<open>CTxIn\<close>

record CScriptWitness =
  stack :: "byte list list"

definition CScriptWitness_IsNull :: "CScriptWitness \<Rightarrow> bool" where
  "CScriptWitness_IsNull w = (stack w = [])"

record CTxIn =
  prevout :: COutPoint
  scriptSig :: CScript
  nSequence :: uint32_t
  scriptWitness :: CScriptWitness

definition SEQUENCE_FINAL :: uint32_t where
  "SEQUENCE_FINAL = 0xffffffff"

definition CTxIn_default :: CTxIn where
  "CTxIn_default = \<lparr> prevout = COutPoint_default, scriptSig = [],
     nSequence = SEQUENCE_FINAL, scriptWitness = \<lparr> stack = [] \<rparr> \<rparr>"

text \<open>\<open>CTxIn::SerializationOp\<close>: prevout, scriptSig, nSequence; never the witness.\<close>

definition CTxIn_Serialize :: "CTxIn \<Rightarrow> byte list" where
  "CTxIn_Serialize i =
     COutPoint_Serialize (prevout i) @ Serialize_bytes (scriptSig i) @ ser_writedata32 (nSequence i)"

definition CTxIn_Unserialize :: "CTxIn \<Rightarrow> byte list \<Rightarrow> CTxIn result" where
  "CTxIn_Unserialize i s =
     (case COutPoint_Unserialize (prevout i) s of Inl e \<Rightarrow> Inl e | Inr (p, s1) \<Rightarrow>
        (case Unserialize_bytes s1 of Inl e \<Rightarrow> Inl e | Inr (sig, s2) \<Rightarrow>
           (case ser_readdata32 s2 of Inl e \<Rightarrow> Inl e | Inr (sq, s3) \<Rightarrow>
              Inr (i\<lparr> prevout := p, scriptSig := sig, nSequence := sq \<rparr>, s3))))"

subsection \<open>CTxOut\<close>

record CTxOut =
  nValue :: CAmount
  scriptPubKey :: CScript

definition CTxOut_SetNull :: "CTxOut \<Rightarrow> CTxOut" where
  "CTxOut_SetNull out = out\<lparr> nValue := - 1, scriptPubKey := [] \<rparr>"

text \<open>
  \<open>CTxOut() { SetNull(); }\<close>: the amount is indeterminate before the body runs (the
  parameter \<open>u\<close>), the script is default-constructed empty.
\<close>

definition CTxOut_default :: "CAmount \<Rightarrow> CTxOut" where
  "CTxOut_default u = CTxOut_SetNull \<lparr> nValue = u, scriptPubKey = [] \<rparr>"

definition CTxOut_IsNull :: "CTxOut \<Rightarrow> bool" where
  "CTxOut_IsNull out = (nValue out = - 1)"

definition CTxOut_Serialize :: "CTxOut \<Rightarrow> byte list" where
  "CTxOut_Serialize out = ser_writedata64 (nValue out) @ Serialize_bytes (scriptPubKey out)"

definition CTxOut_Unserialize :: "CTxOut \<Rightarrow> byte list \<Rightarrow> CTxOut result" where
  "CTxOut_Unserialize out s =
     (case ser_readdata64 s of Inl e \<Rightarrow> Inl e | Inr (v, s1) \<Rightarrow>
        (case Unserialize_bytes s1 of Inl e \<Rightarrow> Inl e | Inr (spk, s2) \<Rightarrow>
           Inr (out\<lparr> nValue := v, scriptPubKey := spk \<rparr>, s2)))"

subsection \<open>Witness stacks\<close>

definition Serialize_stack :: "byte list list \<Rightarrow> byte list" where
  "Serialize_stack st = Serialize_vector Serialize_bytes st"

definition Unserialize_stack :: "byte list \<Rightarrow> (byte list list) result" where
  "Unserialize_stack s = Unserialize_vector (\<lambda>_. Unserialize_bytes) [] s"

subsection \<open>Transactions\<close>

record CMutableTransaction =
  vin :: "CTxIn list"
  vout :: "CTxOut list"
  nVersion :: int32_t
  nLockTime :: uint32_t

text \<open>
  \<open>CTransaction\<close> (below, with the identity hashes) has the same four fields and the
  memoized hash; the templates \<open>SerializeTransaction\<close> and \<open>HasWitness\<close> are
  written once for both.
\<close>

definition fAllowWitness :: "int32_t \<Rightarrow> bool" where
  "fAllowWitness ver = (ver AND SERIALIZE_TRANSACTION_NO_WITNESS = 0)"

fun HasWitness_loop :: "CTxIn list \<Rightarrow> bool" where
  "HasWitness_loop [] = False"
| "HasWitness_loop (i # rest) =
     (if \<not> CScriptWitness_IsNull (scriptWitness i) then True else HasWitness_loop rest)"

definition HasWitness :: "'a CMutableTransaction_scheme \<Rightarrow> bool" where
  "HasWitness tx = HasWitness_loop (vin tx)"

definition IsCoinBase :: "'a CMutableTransaction_scheme \<Rightarrow> bool" where
  "IsCoinBase tx = (length (vin tx) = 1 \<and> COutPoint_IsNull (prevout (vin tx ! 0)))"

subsection \<open>SerializeTransaction\<close>

text \<open>The local \<open>flags\<close> after the consistency check (lines 280 to 287).\<close>

definition Serialize_flags :: "int32_t \<Rightarrow> 'a CMutableTransaction_scheme \<Rightarrow> byte" where
  "Serialize_flags ver tx =
     (if fAllowWitness ver then (if HasWitness tx then 0 OR 1 else 0) else 0)"

fun Serialize_witnesses :: "CTxIn list \<Rightarrow> byte list" where
  "Serialize_witnesses [] = []"
| "Serialize_witnesses (i # rest) =
     Serialize_stack (stack (scriptWitness i)) @ Serialize_witnesses rest"

definition SerializeTransaction :: "int32_t \<Rightarrow> 'a CMutableTransaction_scheme \<Rightarrow> byte list" where
  "SerializeTransaction ver tx =
     (let flags = Serialize_flags ver tx in
      ser_writedata32 (nVersion tx)
      @ (if flags \<noteq> 0 then Serialize_vector CTxIn_Serialize [] @ ser_writedata8 flags else [])
      @ Serialize_vector CTxIn_Serialize (vin tx)
      @ Serialize_vector CTxOut_Serialize (vout tx)
      @ (if flags AND 1 \<noteq> 0 then Serialize_witnesses (vin tx) else [])
      @ ser_writedata32 (nLockTime tx))"

subsection \<open>UnserializeTransaction\<close>

fun Unserialize_witnesses :: "CTxIn list \<Rightarrow> byte list \<Rightarrow> (CTxIn list) result" where
  "Unserialize_witnesses [] s = Inr ([], s)"
| "Unserialize_witnesses (i # rest) s =
     (case Unserialize_stack s of Inl e \<Rightarrow> Inl e | Inr (st, s1) \<Rightarrow>
        (case Unserialize_witnesses rest s1 of Inl e \<Rightarrow> Inl e
         | Inr (rest', s2) \<Rightarrow>
             Inr (i\<lparr> scriptWitness := (scriptWitness i)\<lparr> stack := st \<rparr> \<rparr> # rest', s2)))"

text \<open>
  Lines 244 to 260: the version, the two \<open>clear()\<close> calls, the first input vector and,
  by its size and the stream's mode, either the flags byte with the real vectors or the
  output vector. The result carries the local \<open>flags\<close>.
\<close>

definition Unserialize_vin_vout ::
  "CMutableTransaction \<Rightarrow> int32_t \<Rightarrow> byte list \<Rightarrow> (CMutableTransaction \<times> byte) result" where
  "Unserialize_vin_vout tx ver s =
     (case ser_readdata32 s of Inl e \<Rightarrow> Inl e | Inr (v, s1) \<Rightarrow>
       (let tx1 = tx\<lparr> nVersion := v \<rparr>;
            flags = (0 :: byte);
            tx2 = tx1\<lparr> vin := [] \<rparr>;
            tx3 = tx2\<lparr> vout := [] \<rparr>
        in
        (case Unserialize_vector CTxIn_Unserialize CTxIn_default s1 of Inl e \<Rightarrow> Inl e
         | Inr (vin1, s2) \<Rightarrow>
           (let tx4 = tx3\<lparr> vin := vin1 \<rparr> in
            (if length (vin tx4) = 0 \<and> fAllowWitness ver then
               (case ser_readdata8 s2 of Inl e \<Rightarrow> Inl e | Inr (flags1, s3) \<Rightarrow>
                  (if flags1 \<noteq> 0 then
                     (case Unserialize_vector CTxIn_Unserialize CTxIn_default s3 of
                        Inl e \<Rightarrow> Inl e
                      | Inr (vin2, s4) \<Rightarrow>
                          (case Unserialize_vector CTxOut_Unserialize (CTxOut_default 0) s4 of
                             Inl e \<Rightarrow> Inl e
                           | Inr (vout2, s5) \<Rightarrow>
                               Inr ((tx4\<lparr> vin := vin2, vout := vout2 \<rparr>, flags1), s5)))
                   else Inr ((tx4, flags1), s3)))
             else
               (case Unserialize_vector CTxOut_Unserialize (CTxOut_default 0) s2 of
                  Inl e \<Rightarrow> Inl e
                | Inr (vout1, s3) \<Rightarrow> Inr ((tx4\<lparr> vout := vout1 \<rparr>, flags), s3)))))))"

text \<open>Lines 261 to 267: the witness section, when bit 0 is set and witnesses are allowed.\<close>

definition Unserialize_witness_section ::
  "int32_t \<Rightarrow> CMutableTransaction \<times> byte \<Rightarrow> byte list \<Rightarrow> (CMutableTransaction \<times> byte) result" where
  "Unserialize_witness_section ver txf s =
     (case txf of (tx, flags) \<Rightarrow>
        if flags AND 1 \<noteq> 0 \<and> fAllowWitness ver then
          (case Unserialize_witnesses (vin tx) s of Inl e \<Rightarrow> Inl e
           | Inr (vin', s1) \<Rightarrow> Inr ((tx\<lparr> vin := vin' \<rparr>, flags XOR 1), s1))
        else Inr ((tx, flags), s))"

text \<open>Lines 268 to 272: the check of the remaining flags, then the locktime.\<close>

definition Unserialize_flags_locktime ::
  "CMutableTransaction \<times> byte \<Rightarrow> byte list \<Rightarrow> CMutableTransaction result" where
  "Unserialize_flags_locktime txf s =
     (case txf of (tx, flags) \<Rightarrow>
        if flags \<noteq> 0 then Inl unknown_optional_data
        else (case ser_readdata32 s of Inl e \<Rightarrow> Inl e
              | Inr (lt, s1) \<Rightarrow> Inr (tx\<lparr> nLockTime := lt \<rparr>, s1)))"

definition UnserializeTransaction ::
  "CMutableTransaction \<Rightarrow> int32_t \<Rightarrow> byte list \<Rightarrow> CMutableTransaction result" where
  "UnserializeTransaction tx ver s =
     (case Unserialize_vin_vout tx ver s of Inl e \<Rightarrow> Inl e | Inr (txf, s1) \<Rightarrow>
        (case Unserialize_witness_section ver txf s1 of Inl e \<Rightarrow> Inl e
         | Inr (txf', s2) \<Rightarrow> Unserialize_flags_locktime txf' s2))"

subsection \<open>The target after a failed read\<close>

text \<open>
  \<open>UnserializeTransaction\<close> above gives what a caller sees who discards the target
  when the read throws. The code writes the target in place, so a throw leaves it partly
  written. The definitions below follow the same lines and keep, with the error, the
  target at the throw: the version and locktime it holds, and its two vectors where the
  lines of \<open>UnserializeTransaction\<close> decide them. A vector whose own read threw part-way
  holds what serialize.h leaves there, which is \<open>None\<close> here.
\<close>

record target_at_throw =
  vin_left :: "CTxIn list option"
  vout_left :: "CTxOut list option"
  nVersion_left :: int32_t
  nLockTime_left :: uint32_t

definition left_as :: "CMutableTransaction \<Rightarrow> target_at_throw" where
  "left_as tx = \<lparr> vin_left = Some (vin tx), vout_left = Some (vout tx),
     nVersion_left = nVersion tx, nLockTime_left = nLockTime tx \<rparr>"

type_synonym 'a inplace_result = "(error \<times> target_at_throw) + ('a \<times> byte list)"

definition Unserialize_vin_vout_inplace ::
  "CMutableTransaction \<Rightarrow> int32_t \<Rightarrow> byte list \<Rightarrow> (CMutableTransaction \<times> byte) inplace_result" where
  "Unserialize_vin_vout_inplace tx ver s =
     (case ser_readdata32 s of Inl e \<Rightarrow> Inl (e, left_as tx) | Inr (v, s1) \<Rightarrow>
       (let tx1 = tx\<lparr> nVersion := v \<rparr>;
            flags = (0 :: byte);
            tx2 = tx1\<lparr> vin := [] \<rparr>;
            tx3 = tx2\<lparr> vout := [] \<rparr>
        in
        (case Unserialize_vector CTxIn_Unserialize CTxIn_default s1 of
           Inl e \<Rightarrow> Inl (e, (left_as tx3)\<lparr> vin_left := None \<rparr>)
         | Inr (vin1, s2) \<Rightarrow>
           (let tx4 = tx3\<lparr> vin := vin1 \<rparr> in
            (if length (vin tx4) = 0 \<and> fAllowWitness ver then
               (case ser_readdata8 s2 of Inl e \<Rightarrow> Inl (e, left_as tx4)
                | Inr (flags1, s3) \<Rightarrow>
                  (if flags1 \<noteq> 0 then
                     (case Unserialize_vector CTxIn_Unserialize CTxIn_default s3 of
                        Inl e \<Rightarrow> Inl (e, (left_as tx4)\<lparr> vin_left := None \<rparr>)
                      | Inr (vin2, s4) \<Rightarrow>
                          (case Unserialize_vector CTxOut_Unserialize (CTxOut_default 0) s4 of
                             Inl e \<Rightarrow>
                               Inl (e, (left_as (tx4\<lparr> vin := vin2 \<rparr>))\<lparr> vout_left := None \<rparr>)
                           | Inr (vout2, s5) \<Rightarrow>
                               Inr ((tx4\<lparr> vin := vin2, vout := vout2 \<rparr>, flags1), s5)))
                   else Inr ((tx4, flags1), s3)))
             else
               (case Unserialize_vector CTxOut_Unserialize (CTxOut_default 0) s2 of
                  Inl e \<Rightarrow> Inl (e, (left_as tx4)\<lparr> vout_left := None \<rparr>)
                | Inr (vout1, s3) \<Rightarrow> Inr ((tx4\<lparr> vout := vout1 \<rparr>, flags), s3)))))))"

definition Unserialize_witness_section_inplace ::
  "int32_t \<Rightarrow> CMutableTransaction \<times> byte \<Rightarrow> byte list \<Rightarrow> (CMutableTransaction \<times> byte) inplace_result" where
  "Unserialize_witness_section_inplace ver txf s =
     (case txf of (tx, flags) \<Rightarrow>
        if flags AND 1 \<noteq> 0 \<and> fAllowWitness ver then
          (case Unserialize_witnesses (vin tx) s of
             Inl e \<Rightarrow> Inl (e, (left_as tx)\<lparr> vin_left := None \<rparr>)
           | Inr (vin', s1) \<Rightarrow> Inr ((tx\<lparr> vin := vin' \<rparr>, flags XOR 1), s1))
        else Inr ((tx, flags), s))"

definition Unserialize_flags_locktime_inplace ::
  "CMutableTransaction \<times> byte \<Rightarrow> byte list \<Rightarrow> CMutableTransaction inplace_result" where
  "Unserialize_flags_locktime_inplace txf s =
     (case txf of (tx, flags) \<Rightarrow>
        if flags \<noteq> 0 then Inl (unknown_optional_data, left_as tx)
        else (case ser_readdata32 s of Inl e \<Rightarrow> Inl (e, left_as tx)
              | Inr (lt, s1) \<Rightarrow> Inr (tx\<lparr> nLockTime := lt \<rparr>, s1)))"

definition UnserializeTransaction_inplace ::
  "CMutableTransaction \<Rightarrow> int32_t \<Rightarrow> byte list \<Rightarrow> CMutableTransaction inplace_result" where
  "UnserializeTransaction_inplace tx ver s =
     (case Unserialize_vin_vout_inplace tx ver s of Inl et \<Rightarrow> Inl et | Inr (txf, s1) \<Rightarrow>
        (case Unserialize_witness_section_inplace ver txf s1 of Inl et \<Rightarrow> Inl et
         | Inr (txf', s2) \<Rightarrow> Unserialize_flags_locktime_inplace txf' s2))"

subsection \<open>Identity hashes\<close>






subsection \<open>What the stream can read back\<close>

text \<open>
  The stream refuses a CompactSize above \<open>MAX_SIZE\<close>, so a vector is read back only
  when it has at most that many elements. The predicates below say so of the scripts,
  the witness stacks and the two sequences of a transaction; \<open>no_witness\<close> is an input
  as the input vector alone carries it, its witness stack left as default-constructed;
  \<open>stream_failure\<close> collects the failures of the stream collaborator.
\<close>

definition CTxIn_fits :: "CTxIn \<Rightarrow> bool" where
  "CTxIn_fits i = (length (scriptSig i) \<le> MAX_SIZE)"

definition CTxOut_fits :: "CTxOut \<Rightarrow> bool" where
  "CTxOut_fits out = (length (scriptPubKey out) \<le> MAX_SIZE)"

definition witness_fits :: "CTxIn \<Rightarrow> bool" where
  "witness_fits i = (length (stack (scriptWitness i)) \<le> MAX_SIZE
     \<and> list_all (\<lambda>item. length item \<le> MAX_SIZE) (stack (scriptWitness i)))"

definition tx_fits :: "'a CMutableTransaction_scheme \<Rightarrow> bool" where
  "tx_fits tx = (length (vin tx) \<le> MAX_SIZE \<and> list_all CTxIn_fits (vin tx)
     \<and> length (vout tx) \<le> MAX_SIZE \<and> list_all CTxOut_fits (vout tx))"

definition tx_witness_fits :: "'a CMutableTransaction_scheme \<Rightarrow> bool" where
  "tx_witness_fits tx = list_all witness_fits (vin tx)"

definition no_witness :: "CTxIn \<Rightarrow> CTxIn" where
  "no_witness i = i\<lparr> scriptWitness := scriptWitness CTxIn_default \<rparr>"

definition stream_failure :: "error \<Rightarrow> bool" where
  "stream_failure e = (e = end_of_data \<or> e = non_canonical \<or> e = size_too_large)"

subsection \<open>Sizes a vector can have\<close>



subsection \<open>The transactions of the concrete scenarios\<close>

text \<open>
  Scenario 1 of the specification (section 8), scenario 2 (the same with the one-item
  witness stack \<open>0xAB\<close>), and a transaction with no input and one output.
\<close>

definition scenario_outpoint :: COutPoint where
  "scenario_outpoint = \<lparr> hash = push_bit 248 1, n = 0 \<rparr>"

definition scenario_output :: CTxOut where
  "scenario_output = \<lparr> nValue = 5000000000, scriptPubKey = [0x51] \<rparr>"

definition scenario1_input :: CTxIn where
  "scenario1_input = \<lparr> prevout = scenario_outpoint, scriptSig = [],
     nSequence = 0xFFFFFFFF, scriptWitness = \<lparr> stack = [] \<rparr> \<rparr>"

definition scenario2_input :: CTxIn where
  "scenario2_input = \<lparr> prevout = scenario_outpoint, scriptSig = [],
     nSequence = 0xFFFFFFFF, scriptWitness = \<lparr> stack = [[0xAB]] \<rparr> \<rparr>"

definition scenario1_tx :: CMutableTransaction where
  "scenario1_tx = \<lparr> vin = [scenario1_input], vout = [scenario_output],
     nVersion = 2, nLockTime = 0 \<rparr>"

definition scenario2_tx :: CMutableTransaction where
  "scenario2_tx = \<lparr> vin = [scenario2_input], vout = [scenario_output],
     nVersion = 2, nLockTime = 0 \<rparr>"

definition no_input_tx :: CMutableTransaction where
  "no_input_tx = \<lparr> vin = [], vout = [\<lparr> nValue = 0, scriptPubKey = [] \<rparr>],
     nVersion = 2, nLockTime = 0 \<rparr>"


section \<open>Properties\<close>

subsection \<open>Little-endian words and the CompactSize\<close>

lemma length_le_bytes [simp]: "length (le_bytes k w) = k"
  by (induction k arbitrary: w) auto

lemma byte_split:
  fixes w :: "'a::len word"
  shows "ucast (ucast w :: byte) OR push_bit 8 (take_bit m (drop_bit 8 w)) = take_bit (8 + m) w"
proof (rule bit_eqI)
  fix k assume pb: "possible_bit TYPE('a word) k"
  show "bit (ucast (ucast w :: byte) OR push_bit 8 (take_bit m (drop_bit 8 w))) k
        = bit (take_bit (8 + m) w) k"
  proof (cases "k < 8")
    case True
    then show ?thesis
      by (auto simp add: bit_or_iff bit_ucast_iff bit_push_bit_iff bit_take_bit_iff
          dest: bit_imp_le_length)
  next
    case False
    then obtain j where k: "k = 8 + j" using le_Suc_ex [of 8 k] by auto
    show ?thesis unfolding k
      by (auto simp add: bit_or_iff bit_ucast_iff bit_push_bit_iff bit_take_bit_iff
          bit_drop_bit_eq dest: bit_imp_le_length)
  qed
qed

lemma le_word_le_bytes: "le_word (le_bytes k w) = take_bit (8 * k) w"
proof (induction k arbitrary: w)
  case 0 show ?case by simp
next
  case (Suc k)
  show ?case by (simp add: Suc byte_split)
qed

lemma le_word_le_bytes_id:
  fixes w :: "'a::len word"
  assumes "LENGTH('a) \<le> 8 * k"
  shows "le_word (le_bytes k w) = w"
  using assms by (simp add: le_word_le_bytes take_bit_word_eq_self)

lemma stream_read_append: "stream_read (length v) (v @ s) = Inr (v, s)"
  by (simp add: stream_read_def)

lemma read_le_append:
  fixes w :: "'a::len word"
  assumes "LENGTH('a) \<le> 8 * k"
  shows "read_le k (le_bytes k w @ s) = Inr (w, s)"
  using stream_read_append [of "le_bytes k w" s] assms
  by (simp add: read_le_def le_word_le_bytes_id)

lemma readdata8_append: "ser_readdata8 (ser_writedata8 b @ s) = Inr (b, s)"
  by (simp add: ser_readdata8_def ser_writedata8_def read_le_def stream_read_def)

lemma readdata8_Cons: "ser_readdata8 (b # s) = Inr (b, s)"
  by (simp add: ser_readdata8_def read_le_def stream_read_def)

lemma readdata16_append: "ser_readdata16 (ser_writedata16 w @ s) = Inr (w, s)"
  by (simp add: ser_readdata16_def ser_writedata16_def read_le_append)

lemma readdata32_append: "ser_readdata32 (ser_writedata32 w @ s) = Inr (w, s)"
  by (simp add: ser_readdata32_def ser_writedata32_def read_le_append)

lemma readdata64_append: "ser_readdata64 (ser_writedata64 w @ s) = Inr (w, s)"
  by (simp add: ser_readdata64_def ser_writedata64_def read_le_append)

lemma uint256_append: "Unserialize_uint256 (Serialize_uint256 w @ s) = Inr (w, s)"
  by (simp add: Unserialize_uint256_def Serialize_uint256_def read_le_append)

lemma ReadCompactSize_raw_append:
  assumes "k < 2 ^ 64"
  shows "ReadCompactSize_raw (WriteCompactSize k @ s) = Inr (k, s)"
proof -
  consider (a) "k < 253" | (b) "253 \<le> k" "k \<le> 0xFFFF" | (c) "0xFFFF < k" "k \<le> 0xFFFFFFFF"
    | (d) "0xFFFFFFFF < k" by linarith
  then show ?thesis
  proof cases
    case a
    then have u: "unat (of_nat k :: byte) = k" by (simp add: unat_of_nat)
    then have lt: "(of_nat k :: byte) < 253" using a by (simp add: word_less_nat_alt)
    show ?thesis using a u lt
      by (simp add: ReadCompactSize_raw_def WriteCompactSize_def readdata8_append)
  next
    case b
    then have u: "unat (of_nat k :: 16 word) = k" by (simp add: unat_of_nat)
    show ?thesis using b u
      by (simp add: ReadCompactSize_raw_def WriteCompactSize_def readdata8_append
          readdata16_append)
  next
    case c
    then have u: "unat (of_nat k :: 32 word) = k" by (simp add: unat_of_nat)
    show ?thesis using c u
      by (simp add: ReadCompactSize_raw_def WriteCompactSize_def readdata8_append
          readdata32_append)
  next
    case d
    then have u: "unat (of_nat k :: 64 word) = k" using assms by (simp add: unat_of_nat)
    show ?thesis using d u
      by (simp add: ReadCompactSize_raw_def WriteCompactSize_def readdata8_append
          readdata64_append)
  qed
qed

lemma ReadCompactSize_append:
  assumes "k \<le> MAX_SIZE"
  shows "ReadCompactSize (WriteCompactSize k @ s) = Inr (k, s)"
proof -
  have "k < 2 ^ 64" using assms by (simp add: MAX_SIZE_def)
  then show ?thesis using assms by (simp add: ReadCompactSize_def ReadCompactSize_raw_append)
qed

lemma Unserialize_bytes_append:
  assumes "length v \<le> MAX_SIZE"
  shows "Unserialize_bytes (Serialize_bytes v @ s) = Inr (v, s)"
  using assms
  by (simp add: Unserialize_bytes_def Serialize_bytes_def ReadCompactSize_append
      stream_read_append)

lemma Unserialize_elems_append:
  assumes "\<And>x t. x \<in> set xs \<Longrightarrow> unser d (ser x @ t) = Inr (g x, t)"
  shows "Unserialize_elems unser d (length xs) (concat (map ser xs) @ s) = Inr (map g xs, s)"
  using assms by (induction xs) auto

lemma Unserialize_vector_append:
  assumes "length xs \<le> MAX_SIZE"
    and "\<And>x t. x \<in> set xs \<Longrightarrow> unser d (ser x @ t) = Inr (g x, t)"
  shows "Unserialize_vector unser d (Serialize_vector ser xs @ s) = Inr (map g xs, s)"
  using assms
  by (simp add: Unserialize_vector_def Serialize_vector_def ReadCompactSize_append
      Unserialize_elems_append)

subsection \<open>Elements, vectors and witness stacks\<close>

lemma COutPoint_append:
  "COutPoint_Unserialize p (COutPoint_Serialize q @ s) = Inr (q, s)"
  by (simp add: COutPoint_Unserialize_def COutPoint_Serialize_def uint256_append
      readdata32_append)

lemma CTxIn_append:
  assumes "length (scriptSig i) \<le> MAX_SIZE"
  shows "CTxIn_Unserialize d (CTxIn_Serialize i @ s)
         = Inr (i\<lparr> scriptWitness := scriptWitness d \<rparr>, s)"
  using assms
  by (simp add: CTxIn_Unserialize_def CTxIn_Serialize_def COutPoint_append
      Unserialize_bytes_append readdata32_append)

lemma CTxOut_append:
  assumes "length (scriptPubKey out) \<le> MAX_SIZE"
  shows "CTxOut_Unserialize d (CTxOut_Serialize out @ s) = Inr (out, s)"
  using assms
  by (simp add: CTxOut_Unserialize_def CTxOut_Serialize_def Unserialize_bytes_append
      readdata64_append)

lemma Unserialize_stack_append:
  assumes "length st \<le> MAX_SIZE" and "\<forall>item \<in> set st. length item \<le> MAX_SIZE"
  shows "Unserialize_stack (Serialize_stack st @ s) = Inr (st, s)"
proof -
  have "Unserialize_vector (\<lambda>_. Unserialize_bytes) [] (Serialize_vector Serialize_bytes st @ s)
        = Inr (map (\<lambda>x. x) st, s)"
    using assms by (intro Unserialize_vector_append) (auto simp: Unserialize_bytes_append)
  then show ?thesis by (simp add: Unserialize_stack_def Serialize_stack_def)
qed

lemma HasWitness_loop_iff:
  "HasWitness_loop ins = (\<exists>i \<in> set ins. stack (scriptWitness i) \<noteq> [])"
  by (induction ins) (auto simp: CScriptWitness_IsNull_def)

lemma no_witness_id:
  "stack (scriptWitness i) = [] \<Longrightarrow> no_witness i = i"
  by (simp add: no_witness_def CTxIn_default_def)

lemma map_no_witness_id:
  "\<not> HasWitness_loop ins \<Longrightarrow> map no_witness ins = ins"
  by (induction ins) (auto simp: no_witness_id CScriptWitness_IsNull_def split: if_splits)

lemma Serialize_flags_cases:
  "Serialize_flags ver tx = (if fAllowWitness ver \<and> HasWitness tx then 1 else 0)"
  by (simp add: Serialize_flags_def)

lemma Serialize_legacy:
  assumes "\<not> (fAllowWitness ver \<and> HasWitness tx)"
  shows "SerializeTransaction ver tx =
     ser_writedata32 (nVersion tx) @ Serialize_vector CTxIn_Serialize (vin tx)
     @ Serialize_vector CTxOut_Serialize (vout tx) @ ser_writedata32 (nLockTime tx)"
  using assms by (auto simp add: SerializeTransaction_def Serialize_flags_cases)

lemma Serialize_extended:
  assumes "fAllowWitness ver" and "HasWitness tx"
  shows "SerializeTransaction ver tx =
     ser_writedata32 (nVersion tx) @ [0, 1] @ Serialize_vector CTxIn_Serialize (vin tx)
     @ Serialize_vector CTxOut_Serialize (vout tx) @ Serialize_witnesses (vin tx)
     @ ser_writedata32 (nLockTime tx)"
  using assms
  by (simp add: SerializeTransaction_def Serialize_flags_cases Serialize_vector_def
      WriteCompactSize_def ser_writedata8_def)

lemma Unserialize_vin_append:
  assumes "length ins \<le> MAX_SIZE" and "list_all CTxIn_fits ins"
  shows "Unserialize_vector CTxIn_Unserialize CTxIn_default
           (Serialize_vector CTxIn_Serialize ins @ s) = Inr (map no_witness ins, s)"
  using assms
  by (intro Unserialize_vector_append)
     (auto simp: CTxIn_append no_witness_def CTxIn_fits_def list_all_iff)

lemma Unserialize_vout_append:
  assumes "length os \<le> MAX_SIZE" and "list_all CTxOut_fits os"
  shows "Unserialize_vector CTxOut_Unserialize d
           (Serialize_vector CTxOut_Serialize os @ s) = Inr (os, s)"
proof -
  have "Unserialize_vector CTxOut_Unserialize d (Serialize_vector CTxOut_Serialize os @ s)
        = Inr (map (\<lambda>x. x) os, s)"
    using assms
    by (intro Unserialize_vector_append) (auto simp: CTxOut_append CTxOut_fits_def list_all_iff)
  then show ?thesis by simp
qed

lemma Unserialize_empty_vector: "Unserialize_vector unser d (0 # s) = Inr ([], s)"
  by (simp add: Unserialize_vector_def ReadCompactSize_def ReadCompactSize_raw_def
      readdata8_Cons)

lemma Unserialize_witnesses_append:
  assumes "list_all witness_fits ins"
  shows "Unserialize_witnesses (map no_witness ins) (Serialize_witnesses ins @ s) = Inr (ins, s)"
  using assms
proof (induction ins)
  case Nil
  show ?case by simp
next
  case (Cons i rest)
  then have st: "Unserialize_stack (Serialize_stack (stack (scriptWitness i)) @ t)
                 = Inr (stack (scriptWitness i), t)" for t
    by (intro Unserialize_stack_append) (auto simp: witness_fits_def list_all_iff)
  have restore: "(no_witness i)\<lparr> scriptWitness :=
                (scriptWitness (no_witness i))\<lparr> stack := stack (scriptWitness i) \<rparr> \<rparr> = i"
    by (simp add: no_witness_def CTxIn_default_def)
  from Cons show ?case by (simp add: st restore)
qed

subsection \<open>Reading back a serialized transaction\<close>

lemma Serialize_vector_Nil: "Serialize_vector ser [] = [0]"
  by (simp add: Serialize_vector_def WriteCompactSize_def ser_writedata8_def)

lemma vin_vout_legacy:
  assumes "tx_fits tx" and "vin tx \<noteq> [] \<or> \<not> fAllowWitness ver"
  shows "Unserialize_vin_vout tx0 ver
           (ser_writedata32 (nVersion tx) @ Serialize_vector CTxIn_Serialize (vin tx)
            @ Serialize_vector CTxOut_Serialize (vout tx) @ s)
         = Inr ((tx0\<lparr> nVersion := nVersion tx, vin := map no_witness (vin tx),
                      vout := vout tx \<rparr>, 0), s)"
  using assms
  by (auto simp add: Unserialize_vin_vout_def readdata32_append tx_fits_def
      Unserialize_vin_append Unserialize_vout_append)

lemma vin_vout_empty:
  assumes "fAllowWitness ver"
  shows "Unserialize_vin_vout tx0 ver (ser_writedata32 v @ [0, 0] @ s)
         = Inr ((tx0\<lparr> nVersion := v, vin := [], vout := [] \<rparr>, 0), s)"
  using assms
  by (simp add: Unserialize_vin_vout_def readdata32_append Unserialize_empty_vector
      readdata8_Cons)

lemma vin_vout_extended:
  assumes "tx_fits tx" and "fAllowWitness ver"
  shows "Unserialize_vin_vout tx0 ver
           (ser_writedata32 (nVersion tx) @ [0, 1] @ Serialize_vector CTxIn_Serialize (vin tx)
            @ Serialize_vector CTxOut_Serialize (vout tx) @ s)
         = Inr ((tx0\<lparr> nVersion := nVersion tx, vin := map no_witness (vin tx),
                      vout := vout tx \<rparr>, 1), s)"
  using assms
  by (simp add: Unserialize_vin_vout_def readdata32_append Unserialize_empty_vector
      readdata8_Cons tx_fits_def Unserialize_vin_append Unserialize_vout_append)

lemma roundtrip_legacy_layout:
  fixes tx :: CMutableTransaction
  assumes "tx_fits tx" and "vin tx \<noteq> [] \<or> \<not> fAllowWitness ver"
    and "\<not> (fAllowWitness ver \<and> HasWitness tx)"
  shows "UnserializeTransaction tx0 ver (SerializeTransaction ver tx @ s)
         = Inr (tx\<lparr> vin := map no_witness (vin tx) \<rparr>, s)"
proof -
  have "Unserialize_vin_vout tx0 ver (SerializeTransaction ver tx @ s)
        = Inr ((tx0\<lparr> nVersion := nVersion tx, vin := map no_witness (vin tx),
                      vout := vout tx \<rparr>, 0), ser_writedata32 (nLockTime tx) @ s)"
    using vin_vout_legacy [OF assms(1,2), of tx0 "ser_writedata32 (nLockTime tx) @ s"]
    by (simp add: Serialize_legacy [OF assms(3)])
  then show ?thesis
    by (simp add: UnserializeTransaction_def Unserialize_witness_section_def
        Unserialize_flags_locktime_def readdata32_append)
qed

lemma roundtrip_empty:
  fixes tx :: CMutableTransaction
  assumes "fAllowWitness ver" and "vin tx = []" and "vout tx = []"
  shows "UnserializeTransaction tx0 ver (SerializeTransaction ver tx @ s) = Inr (tx, s)"
proof -
  have nw: "\<not> (fAllowWitness ver \<and> HasWitness tx)"
    using assms by (simp add: HasWitness_def)
  have "Unserialize_vin_vout tx0 ver (SerializeTransaction ver tx @ s)
        = Inr ((tx0\<lparr> nVersion := nVersion tx, vin := [], vout := [] \<rparr>, 0),
               ser_writedata32 (nLockTime tx) @ s)"
    using vin_vout_empty [OF assms(1), of tx0 "nVersion tx" "ser_writedata32 (nLockTime tx) @ s"]
    by (simp add: Serialize_legacy [OF nw] assms Serialize_vector_Nil)
  then show ?thesis using assms
    by (simp add: UnserializeTransaction_def Unserialize_witness_section_def
        Unserialize_flags_locktime_def readdata32_append)
qed

lemma roundtrip_extended:
  fixes tx :: CMutableTransaction
  assumes "tx_fits tx" and "tx_witness_fits tx" and "fAllowWitness ver" and "HasWitness tx"
  shows "UnserializeTransaction tx0 ver (SerializeTransaction ver tx @ s) = Inr (tx, s)"
proof -
  have "Unserialize_vin_vout tx0 ver (SerializeTransaction ver tx @ s)
        = Inr ((tx0\<lparr> nVersion := nVersion tx, vin := map no_witness (vin tx),
                      vout := vout tx \<rparr>, 1),
               Serialize_witnesses (vin tx) @ ser_writedata32 (nLockTime tx) @ s)"
    using vin_vout_extended [OF assms(1,3), of tx0
        "Serialize_witnesses (vin tx) @ ser_writedata32 (nLockTime tx) @ s"]
    by (simp add: Serialize_extended [OF assms(3,4)])
  moreover have "Unserialize_witnesses (map no_witness (vin tx))
        (Serialize_witnesses (vin tx) @ ser_writedata32 (nLockTime tx) @ s)
        = Inr (vin tx, ser_writedata32 (nLockTime tx) @ s)"
    using assms(2) by (simp add: tx_witness_fits_def Unserialize_witnesses_append)
  ultimately show ?thesis using assms(3)
    by (simp add: UnserializeTransaction_def Unserialize_witness_section_def
        Unserialize_flags_locktime_def readdata32_append)
qed

subsection \<open>Failures\<close>

lemma stream_failure_not_unknown: "stream_failure e \<Longrightarrow> e \<noteq> unknown_optional_data"
  by (auto simp: stream_failure_def end_of_data_def non_canonical_def size_too_large_def
      unknown_optional_data_def)

lemma stream_read_fail: "stream_read k s = Inl e \<Longrightarrow> stream_failure e"
  by (auto simp: stream_read_def stream_failure_def split: if_splits)

lemma read_le_fail: "read_le k s = Inl e \<Longrightarrow> stream_failure e"
  by (auto simp: read_le_def split: sum.splits dest: stream_read_fail)

lemma readdata8_fail: "ser_readdata8 s = Inl e \<Longrightarrow> stream_failure e"
  unfolding ser_readdata8_def by (rule read_le_fail)

lemma readdata16_fail: "ser_readdata16 s = Inl e \<Longrightarrow> stream_failure e"
  unfolding ser_readdata16_def by (rule read_le_fail)

lemma readdata32_fail: "ser_readdata32 s = Inl e \<Longrightarrow> stream_failure e"
  unfolding ser_readdata32_def by (rule read_le_fail)

lemma readdata64_fail: "ser_readdata64 s = Inl e \<Longrightarrow> stream_failure e"
  unfolding ser_readdata64_def by (rule read_le_fail)

lemma uint256_fail: "Unserialize_uint256 s = Inl e \<Longrightarrow> stream_failure e"
  unfolding Unserialize_uint256_def by (rule read_le_fail)

lemma ReadCompactSize_raw_fail: "ReadCompactSize_raw s = Inl e \<Longrightarrow> stream_failure e"
  unfolding ReadCompactSize_raw_def
  by (auto split: sum.splits if_splits prod.splits
      dest: readdata8_fail readdata16_fail readdata32_fail readdata64_fail
      simp: stream_failure_def)

lemma ReadCompactSize_fail: "ReadCompactSize s = Inl e \<Longrightarrow> stream_failure e"
  unfolding ReadCompactSize_def
  by (auto split: sum.splits if_splits prod.splits dest: ReadCompactSize_raw_fail
      simp: stream_failure_def)

lemma Unserialize_bytes_fail: "Unserialize_bytes s = Inl e \<Longrightarrow> stream_failure e"
  unfolding Unserialize_bytes_def
  by (auto split: sum.splits prod.splits dest: ReadCompactSize_fail stream_read_fail)

lemma Unserialize_elems_fail:
  assumes "\<And>t e. unser d t = Inl e \<Longrightarrow> stream_failure e"
  shows "Unserialize_elems unser d k s = Inl e \<Longrightarrow> stream_failure e"
proof (induction k arbitrary: s)
  case 0
  then show ?case by simp
next
  case (Suc k)
  then show ?case using assms by (auto split: sum.splits prod.splits)
qed

lemma Unserialize_vector_fail:
  assumes "\<And>t e. unser d t = Inl e \<Longrightarrow> stream_failure e"
  shows "Unserialize_vector unser d s = Inl e \<Longrightarrow> stream_failure e"
  unfolding Unserialize_vector_def
  using Unserialize_elems_fail [of unser d, OF assms]
  by (auto split: sum.splits prod.splits dest: ReadCompactSize_fail)

lemma COutPoint_fail: "COutPoint_Unserialize p s = Inl e \<Longrightarrow> stream_failure e"
  unfolding COutPoint_Unserialize_def
  by (auto split: sum.splits prod.splits dest: uint256_fail readdata32_fail)

lemma CTxIn_fail: "CTxIn_Unserialize i s = Inl e \<Longrightarrow> stream_failure e"
  unfolding CTxIn_Unserialize_def
  by (auto split: sum.splits prod.splits
      dest: COutPoint_fail Unserialize_bytes_fail readdata32_fail)

lemma CTxOut_fail: "CTxOut_Unserialize out s = Inl e \<Longrightarrow> stream_failure e"
  unfolding CTxOut_Unserialize_def
  by (auto split: sum.splits prod.splits dest: Unserialize_bytes_fail readdata64_fail)

lemma vin_fail:
  "Unserialize_vector CTxIn_Unserialize d s = Inl e \<Longrightarrow> stream_failure e"
  by (rule Unserialize_vector_fail [of CTxIn_Unserialize d]) (rule CTxIn_fail)

lemma vout_fail:
  "Unserialize_vector CTxOut_Unserialize d s = Inl e \<Longrightarrow> stream_failure e"
  by (rule Unserialize_vector_fail [of CTxOut_Unserialize d]) (rule CTxOut_fail)

lemma Unserialize_stack_fail: "Unserialize_stack s = Inl e \<Longrightarrow> stream_failure e"
  unfolding Unserialize_stack_def
  by (rule Unserialize_vector_fail [of "\<lambda>_. Unserialize_bytes" "[]"])
     (auto dest: Unserialize_bytes_fail)

lemma Unserialize_witnesses_fail:
  "Unserialize_witnesses ins s = Inl e \<Longrightarrow> stream_failure e"
  by (induction ins arbitrary: s)
     (auto split: sum.splits prod.splits dest: Unserialize_stack_fail)

lemma vin_vout_fail: "Unserialize_vin_vout tx ver s = Inl e \<Longrightarrow> stream_failure e"
  unfolding Unserialize_vin_vout_def Let_def
  by (auto split: sum.splits prod.splits if_splits
      dest: readdata32_fail readdata8_fail vin_fail vout_fail)

lemma witness_section_fail:
  "Unserialize_witness_section ver txf s = Inl e \<Longrightarrow> stream_failure e"
  unfolding Unserialize_witness_section_def
  by (auto split: sum.splits prod.splits if_splits dest: Unserialize_witnesses_fail)

lemma witness_section_flags:
  "Unserialize_witness_section ver (tx, f) s = Inr ((tx', f'), s')
   \<Longrightarrow> f' = (if f AND 1 \<noteq> 0 \<and> fAllowWitness ver then f XOR 1 else f)"
  unfolding Unserialize_witness_section_def
  by (auto split: sum.splits prod.splits if_splits)

lemma vin_vout_flags_legacy:
  "\<not> fAllowWitness ver \<Longrightarrow> Unserialize_vin_vout tx ver s = Inr ((tx', f), s') \<Longrightarrow> f = 0"
  unfolding Unserialize_vin_vout_def Let_def
  by (auto split: sum.splits prod.splits if_splits)

lemma flags_locktime_unknown:
  "Unserialize_flags_locktime (tx, f) s = Inl unknown_optional_data \<longleftrightarrow> f \<noteq> 0"
  unfolding Unserialize_flags_locktime_def
  by (auto split: sum.splits prod.splits
      dest: readdata32_fail stream_failure_not_unknown)

lemma unknown_iff:
  "UnserializeTransaction tx ver s = Inl unknown_optional_data \<longleftrightarrow>
     (\<exists>tx1 f1 s1 tx2 f2 s2.
        Unserialize_vin_vout tx ver s = Inr ((tx1, f1), s1)
      \<and> Unserialize_witness_section ver (tx1, f1) s1 = Inr ((tx2, f2), s2)
      \<and> f2 \<noteq> 0)"
proof (cases "Unserialize_vin_vout tx ver s")
  case (Inl e)
  then have "stream_failure e" by (rule vin_vout_fail)
  then show ?thesis using Inl
    by (auto simp: UnserializeTransaction_def dest: stream_failure_not_unknown)
next
  case (Inr r)
  obtain tx1 f1 s1 where r: "r = ((tx1, f1), s1)" by (cases r) auto
  show ?thesis
  proof (cases "Unserialize_witness_section ver (tx1, f1) s1")
    case (Inl e)
    then have "stream_failure e" by (rule witness_section_fail)
    then show ?thesis using Inl Inr r
      by (auto simp: UnserializeTransaction_def dest: stream_failure_not_unknown)
  next
    case w: (Inr r')
    obtain tx2 f2 s2 where r': "r' = ((tx2, f2), s2)" by (cases r') auto
    show ?thesis using Inr r w r'
      by (simp add: UnserializeTransaction_def flags_locktime_unknown)
  qed
qed

lemma vin_vout_target:
  "Unserialize_vin_vout tx ver s =
     (case Unserialize_vin_vout tx' ver s of Inl e \<Rightarrow> Inl e
      | Inr ((t, f), s') \<Rightarrow> Inr ((t\<lparr> nLockTime := nLockTime tx \<rparr>, f), s'))"
proof (cases "ser_readdata32 s")
  case (Inl e)
  then show ?thesis by (simp add: Unserialize_vin_vout_def)
next
  case (Inr r)
  obtain v s1 where r: "r = (v, s1)" by (cases r) auto
  show ?thesis
  proof (cases "Unserialize_vector CTxIn_Unserialize CTxIn_default s1")
    case (Inl e)
    then show ?thesis using Inr r by (simp add: Unserialize_vin_vout_def)
  next
    case v1: (Inr r1)
    obtain vin1 s2 where r1: "r1 = (vin1, s2)" by (cases r1) auto
    show ?thesis using Inr r v1 r1
      by (auto simp add: Unserialize_vin_vout_def Let_def split: sum.splits prod.splits)
  qed
qed

lemma witness_section_target:
  "Unserialize_witness_section ver (t\<lparr> nLockTime := l \<rparr>, f) s =
     (case Unserialize_witness_section ver (t, f) s of Inl e \<Rightarrow> Inl e
      | Inr ((t', f'), s') \<Rightarrow> Inr ((t'\<lparr> nLockTime := l \<rparr>, f'), s'))"
  by (simp add: Unserialize_witness_section_def split: sum.splits prod.splits)

lemma flags_locktime_target:
  "Unserialize_flags_locktime (t\<lparr> nLockTime := l \<rparr>, f) s = Unserialize_flags_locktime (t, f) s"
  by (simp add: Unserialize_flags_locktime_def split: sum.splits prod.splits)

subsection \<open>The target: ignored on success, partly written on failure\<close>

lemma independent_of_target:
  "UnserializeTransaction tx1 ver s = UnserializeTransaction tx2 ver s"
proof (cases "Unserialize_vin_vout tx2 ver s")
  case (Inl e)
  then show ?thesis
    by (simp add: UnserializeTransaction_def vin_vout_target [of tx1 ver s tx2])
next
  case (Inr r)
  obtain t f s1 where r: "r = ((t, f), s1)" by (cases r) auto
  show ?thesis
  proof (cases "Unserialize_witness_section ver (t, f) s1")
    case (Inl e)
    then show ?thesis using Inr r
      by (simp add: UnserializeTransaction_def vin_vout_target [of tx1 ver s tx2]
          witness_section_target)
  next
    case w: (Inr r')
    obtain t' f' s2 where r': "r' = ((t', f'), s2)" by (cases r') auto
    show ?thesis using Inr r w r'
      by (simp add: UnserializeTransaction_def vin_vout_target [of tx1 ver s tx2]
          witness_section_target flags_locktime_target)
  qed
qed

lemma vin_vout_inplace_agrees:
  "Unserialize_vin_vout tx ver s = map_sum fst id (Unserialize_vin_vout_inplace tx ver s)"
proof (cases "ser_readdata32 s")
  case (Inl e)
  then show ?thesis by (simp add: Unserialize_vin_vout_def Unserialize_vin_vout_inplace_def)
next
  case (Inr r)
  obtain v s1 where r: "r = (v, s1)" by (cases r) auto
  show ?thesis
  proof (cases "Unserialize_vector CTxIn_Unserialize CTxIn_default s1")
    case (Inl e)
    then show ?thesis using Inr r
      by (simp add: Unserialize_vin_vout_def Unserialize_vin_vout_inplace_def)
  next
    case v1: (Inr r1)
    obtain vin1 s2 where r1: "r1 = (vin1, s2)" by (cases r1) auto
    show ?thesis using Inr r v1 r1
      by (auto simp add: Unserialize_vin_vout_def Unserialize_vin_vout_inplace_def Let_def
          split: sum.splits prod.splits)
  qed
qed

lemma vin_vout_inplace_locktime:
  "Unserialize_vin_vout_inplace tx ver s = Inl (e, t) \<Longrightarrow> nLockTime_left t = nLockTime tx"
  "Unserialize_vin_vout_inplace tx ver s = Inr ((tx', f), s') \<Longrightarrow> nLockTime tx' = nLockTime tx"
proof -
  show "Unserialize_vin_vout_inplace tx ver s = Inl (e, t) \<Longrightarrow> nLockTime_left t = nLockTime tx"
  proof (cases "ser_readdata32 s")
    case (Inl e')
    assume "Unserialize_vin_vout_inplace tx ver s = Inl (e, t)"
    with Inl show ?thesis by (auto simp: Unserialize_vin_vout_inplace_def left_as_def)
  next
    case (Inr r)
    assume a: "Unserialize_vin_vout_inplace tx ver s = Inl (e, t)"
    obtain v s1 where r: "r = (v, s1)" by (cases r) auto
    show ?thesis
    proof (cases "Unserialize_vector CTxIn_Unserialize CTxIn_default s1")
      case (Inl e')
      then show ?thesis using a Inr r
        by (auto simp: Unserialize_vin_vout_inplace_def left_as_def)
    next
      case v1: (Inr r1)
      obtain vin1 s2 where r1: "r1 = (vin1, s2)" by (cases r1) auto
      show ?thesis using a Inr r v1 r1
        by (auto simp add: Unserialize_vin_vout_inplace_def Let_def left_as_def
            split: sum.splits prod.splits if_splits)
    qed
  qed
  show "Unserialize_vin_vout_inplace tx ver s = Inr ((tx', f), s') \<Longrightarrow> nLockTime tx' = nLockTime tx"
  proof (cases "ser_readdata32 s")
    case (Inl e')
    assume "Unserialize_vin_vout_inplace tx ver s = Inr ((tx', f), s')"
    with Inl show ?thesis by (auto simp: Unserialize_vin_vout_inplace_def)
  next
    case (Inr r)
    assume a: "Unserialize_vin_vout_inplace tx ver s = Inr ((tx', f), s')"
    obtain v s1 where r: "r = (v, s1)" by (cases r) auto
    show ?thesis
    proof (cases "Unserialize_vector CTxIn_Unserialize CTxIn_default s1")
      case (Inl e')
      then show ?thesis using a Inr r
        by (auto simp: Unserialize_vin_vout_inplace_def)
    next
      case v1: (Inr r1)
      obtain vin1 s2 where r1: "r1 = (vin1, s2)" by (cases r1) auto
      show ?thesis using a Inr r v1 r1
        by (auto simp add: Unserialize_vin_vout_inplace_def Let_def
            split: sum.splits prod.splits if_splits)
    qed
  qed
qed

lemma witness_section_inplace_agrees:
  "Unserialize_witness_section ver txf s
   = map_sum fst id (Unserialize_witness_section_inplace ver txf s)"
  by (cases txf)
     (simp add: Unserialize_witness_section_def Unserialize_witness_section_inplace_def
      split: sum.splits prod.splits)

lemma witness_section_inplace_locktime:
  "Unserialize_witness_section_inplace ver (tx, f) s = Inl (e, t)
   \<Longrightarrow> nLockTime_left t = nLockTime tx"
  "Unserialize_witness_section_inplace ver (tx, f) s = Inr ((tx', f'), s')
   \<Longrightarrow> nLockTime tx' = nLockTime tx"
  by (auto simp: Unserialize_witness_section_inplace_def left_as_def
      split: sum.splits prod.splits if_splits)

lemma flags_locktime_inplace_agrees:
  "Unserialize_flags_locktime txf s
   = map_sum fst id (Unserialize_flags_locktime_inplace txf s)"
  by (cases txf)
     (simp add: Unserialize_flags_locktime_def Unserialize_flags_locktime_inplace_def
      split: sum.splits prod.splits)

lemma flags_locktime_inplace_locktime:
  "Unserialize_flags_locktime_inplace (tx, f) s = Inl (e, t)
   \<Longrightarrow> nLockTime_left t = nLockTime tx"
  by (auto simp: Unserialize_flags_locktime_inplace_def left_as_def
      split: sum.splits prod.splits if_splits)

lemma inplace_agrees:
  "UnserializeTransaction tx ver s = map_sum fst id (UnserializeTransaction_inplace tx ver s)"
proof (cases "Unserialize_vin_vout_inplace tx ver s")
  case (Inl et)
  then show ?thesis
    by (simp add: UnserializeTransaction_def UnserializeTransaction_inplace_def
        vin_vout_inplace_agrees)
next
  case (Inr r)
  obtain txf s1 where r: "r = (txf, s1)" by (cases r) auto
  show ?thesis
  proof (cases "Unserialize_witness_section_inplace ver txf s1")
    case (Inl et)
    then show ?thesis using Inr r
      by (simp add: UnserializeTransaction_def UnserializeTransaction_inplace_def
          vin_vout_inplace_agrees witness_section_inplace_agrees)
  next
    case w: (Inr r')
    obtain txf' s2 where r': "r' = (txf', s2)" by (cases r') auto
    show ?thesis using Inr r w r'
      by (simp add: UnserializeTransaction_def UnserializeTransaction_inplace_def
          vin_vout_inplace_agrees witness_section_inplace_agrees
          flags_locktime_inplace_agrees)
  qed
qed

lemma inplace_locktime_kept:
  assumes "UnserializeTransaction_inplace tx ver s = Inl (e, t)"
  shows "nLockTime_left t = nLockTime tx"
proof (cases "Unserialize_vin_vout_inplace tx ver s")
  case (Inl et)
  then show ?thesis using assms vin_vout_inplace_locktime(1) [of tx ver s e t]
    by (simp add: UnserializeTransaction_inplace_def)
next
  case (Inr r)
  obtain tx1 f1 s1 where r: "r = ((tx1, f1), s1)" by (cases r) auto
  have l1: "nLockTime tx1 = nLockTime tx"
    using Inr r by (simp add: vin_vout_inplace_locktime(2))
  show ?thesis
  proof (cases "Unserialize_witness_section_inplace ver (tx1, f1) s1")
    case (Inl et)
    then show ?thesis
      using assms Inr r l1 witness_section_inplace_locktime(1) [of ver tx1 f1 s1 e t]
      by (simp add: UnserializeTransaction_inplace_def)
  next
    case w: (Inr r')
    obtain tx2 f2 s2 where r': "r' = ((tx2, f2), s2)" by (cases r') auto
    have l2: "nLockTime tx2 = nLockTime tx1"
      using w r' by (simp add: witness_section_inplace_locktime(2))
    show ?thesis
      using assms Inr r w r' l1 l2 flags_locktime_inplace_locktime [of tx2 f2 s2 e t]
      by (simp add: UnserializeTransaction_inplace_def)
  qed
qed

subsection \<open>Serializations that differ in the witness only\<close>



lemma not_fAllowWitness_NO_WITNESS: "\<not> fAllowWitness SERIALIZE_TRANSACTION_NO_WITNESS"
  by (simp add: fAllowWitness_def SERIALIZE_TRANSACTION_NO_WITNESS_def)

lemma fAllowWitness_0: "fAllowWitness 0"
  by (simp add: fAllowWitness_def)















subsection \<open>Evaluating the codec on concrete transactions\<close>

lemma le_bytes_numeral:
  "le_bytes (numeral k) w = ucast w # le_bytes (pred_numeral k) (drop_bit 8 w)"
  by (simp add: numeral_eq_Suc)

lemma Unserialize_elems_numeral:
  "Unserialize_elems unser d (numeral k) s =
     (case unser d s of Inl e \<Rightarrow> Inl e | Inr (x, s1) \<Rightarrow>
        (case Unserialize_elems unser d (pred_numeral k) s1 of Inl e \<Rightarrow> Inl e
         | Inr (xs, s2) \<Rightarrow> Inr (x # xs, s2)))"
  by (simp add: numeral_eq_Suc)

lemmas scenario_defs = scenario1_tx_def scenario2_tx_def scenario1_input_def
  scenario2_input_def scenario_outpoint_def scenario_output_def no_input_tx_def

lemmas Serialize_defs = SerializeTransaction_def Serialize_flags_def fAllowWitness_def
  HasWitness_def CScriptWitness_IsNull_def SERIALIZE_TRANSACTION_NO_WITNESS_def
  Serialize_vector_def CTxIn_Serialize_def CTxOut_Serialize_def COutPoint_Serialize_def
  Serialize_uint256_def Serialize_bytes_def Serialize_stack_def WriteCompactSize_def
  ser_writedata8_def ser_writedata16_def ser_writedata32_def ser_writedata64_def
  le_bytes_numeral

lemmas Unserialize_defs = UnserializeTransaction_def Unserialize_vin_vout_def
  Unserialize_witness_section_def Unserialize_flags_locktime_def fAllowWitness_def
  SERIALIZE_TRANSACTION_NO_WITNESS_def Unserialize_vector_def ReadCompactSize_def
  ReadCompactSize_raw_def MAX_SIZE_def readdata8_Cons ser_readdata16_def ser_readdata32_def
  ser_readdata64_def read_le_def stream_read_def CTxIn_Unserialize_def CTxOut_Unserialize_def
  COutPoint_Unserialize_def Unserialize_uint256_def Unserialize_bytes_def Unserialize_stack_def
  Unserialize_elems_numeral CTxIn_default_def COutPoint_default_def CTxOut_default_def
  CTxOut_SetNull_def

lemmas fits_defs = tx_fits_def tx_witness_fits_def CTxIn_fits_def CTxOut_fits_def
  witness_fits_def MAX_SIZE_def

lemma scenario_input_bytes:
  "CTxIn_Serialize scenario1_input =
     [0, 0, 0, 0, 0, 0, 0, 0, 0, 0, 0, 0, 0, 0, 0, 0, 0, 0, 0, 0, 0, 0, 0, 0, 0, 0, 0, 0, 0, 0,
      0, 1, 0, 0, 0, 0, 0, 255, 255, 255, 255]"
  "CTxIn_Serialize scenario2_input = CTxIn_Serialize scenario1_input"
  by (simp_all add: scenario_defs Serialize_defs)

lemma scenario_output_bytes:
  "CTxOut_Serialize scenario_output = [0, 242, 5, 42, 1, 0, 0, 0, 1, 81]"
  by (simp add: scenario_defs Serialize_defs)

lemma scenario1_bytes:
  "SerializeTransaction ver scenario1_tx =
     [2, 0, 0, 0, 1] @ CTxIn_Serialize scenario1_input
     @ [1] @ CTxOut_Serialize scenario_output @ [0, 0, 0, 0]"
  by (simp add: scenario1_tx_def scenario1_input_def SerializeTransaction_def
      Serialize_flags_def HasWitness_def CScriptWitness_IsNull_def Serialize_vector_def
      WriteCompactSize_def ser_writedata8_def ser_writedata32_def le_bytes_numeral)

lemma scenario2_stack: "stack (scriptWitness scenario2_input) = [[0xAB]]"
  by (simp add: scenario2_input_def)

lemma scenario2_bytes:
  "SerializeTransaction 0 scenario2_tx =
     [2, 0, 0, 0, 0, 1, 1] @ CTxIn_Serialize scenario1_input
     @ [1] @ CTxOut_Serialize scenario_output @ [1, 1, 0xAB, 0, 0, 0, 0]"
  by (simp add: scenario2_tx_def scenario_input_bytes(2) SerializeTransaction_def
      Serialize_flags_def HasWitness_def CScriptWitness_IsNull_def Serialize_vector_def
      WriteCompactSize_def ser_writedata8_def ser_writedata32_def le_bytes_numeral
      fAllowWitness_def Serialize_stack_def Serialize_bytes_def scenario2_stack)

lemma no_input_bytes:
  "SerializeTransaction ver no_input_tx = [2, 0, 0, 0, 0, 1, 0, 0, 0, 0, 0, 0, 0, 0, 0, 0, 0, 0, 0]"
  by (simp add: scenario_defs Serialize_defs)

lemma no_input_read_back:
  "UnserializeTransaction tx 0 [2, 0, 0, 0, 0, 1, 0, 0, 0, 0, 0, 0, 0, 0, 0, 0, 0, 0, 0]
   = Inr (\<lparr> vin = [], vout = [], nVersion = 2, nLockTime = 0 \<rparr>, [0, 0, 0, 0, 0, 0, 0])"
  by (simp add: Unserialize_defs)

lemma no_input_read_back_legacy:
  "UnserializeTransaction tx SERIALIZE_TRANSACTION_NO_WITNESS
     [2, 0, 0, 0, 0, 1, 0, 0, 0, 0, 0, 0, 0, 0, 0, 0, 0, 0, 0] = Inr (no_input_tx, [])"
  by (simp add: Unserialize_defs no_input_tx_def)

lemma unknown_flag_read:
  "UnserializeTransaction tx 0 [2, 0, 0, 0, 0, 2, 0, 0] = Inl unknown_optional_data"
  by (simp add: Unserialize_defs)

lemma scenario_fits:
  "tx_fits scenario1_tx" "tx_witness_fits scenario1_tx"
  "tx_fits scenario2_tx" "tx_witness_fits scenario2_tx"
  "tx_fits no_input_tx" "tx_witness_fits no_input_tx"
  by (simp_all add: scenario_defs fits_defs)

subsection \<open>Further facts about reading\<close>

lemma sint_minus_one_iff: "sint (w :: 'a::len word) = - 1 \<longleftrightarrow> w = - 1"
proof
  assume "sint w = - 1"
  then have "sint w = sint (- 1 :: 'a word)" by simp
  then show "w = - 1" by (rule signed_word_eqI)
qed simp

lemma NO_WITNESS_bit: "fAllowWitness ver \<longleftrightarrow> \<not> bit ver 30"
proof -
  have "(0x40000000 :: 32 word) = 2 ^ 30" by simp
  then show ?thesis
    unfolding fAllowWitness_def SERIALIZE_TRANSACTION_NO_WITNESS_def
    by (simp only: and_exp_eq_0_iff_not_bit)
qed

lemma legacy_read:
  assumes "\<not> fAllowWitness ver"
  shows "UnserializeTransaction tx ver s =
     (case ser_readdata32 s of Inl e \<Rightarrow> Inl e | Inr (v, s1) \<Rightarrow>
       (case Unserialize_vector CTxIn_Unserialize CTxIn_default s1 of Inl e \<Rightarrow> Inl e
        | Inr (vi, s2) \<Rightarrow>
          (case Unserialize_vector CTxOut_Unserialize (CTxOut_default 0) s2 of Inl e \<Rightarrow> Inl e
           | Inr (vo, s3) \<Rightarrow>
             (case ser_readdata32 s3 of Inl e \<Rightarrow> Inl e
              | Inr (lt, s4) \<Rightarrow>
                  Inr (\<lparr> vin = vi, vout = vo, nVersion = v, nLockTime = lt \<rparr>, s4)))))"
  using assms
  by (simp add: UnserializeTransaction_def Unserialize_vin_vout_def
      Unserialize_witness_section_def Unserialize_flags_locktime_def
      split: sum.splits prod.splits)

lemma Unserialize_fail_cases:
  assumes "UnserializeTransaction tx ver s = Inl e"
  shows "e = unknown_optional_data \<or> stream_failure e"
proof (cases "Unserialize_vin_vout tx ver s")
  case (Inl e')
  then show ?thesis using assms vin_vout_fail [of tx ver s e']
    by (simp add: UnserializeTransaction_def)
next
  case (Inr r)
  show ?thesis
  proof (cases "Unserialize_witness_section ver (fst r) (snd r)")
    case (Inl e')
    then show ?thesis using assms Inr witness_section_fail [of ver "fst r" "snd r" e']
      by (cases r) (simp add: UnserializeTransaction_def)
  next
    case w: (Inr r')
    show ?thesis using assms Inr w
      by (cases r; cases r'; cases "fst r'")
         (auto simp: UnserializeTransaction_def Unserialize_flags_locktime_def
          split: if_splits sum.splits dest: readdata32_fail)
  qed
qed

section \<open>The claims\<close>

text \<open>
  C7. \<open>IsCoinBase\<close> is true exactly when the input sequence has one element and that
  element's outpoint is the null sentinel, the all-zero hash with index 0xFFFFFFFF; it is
  false for every other input count and for a single input with any other outpoint.
\<close>

theorem IsCoinBase_iff:
  "IsCoinBase tx \<longleftrightarrow>
     (\<exists>i. vin tx = [i] \<and> hash (prevout i) = 0 \<and> n (prevout i) = 0xFFFFFFFF)"
proof -
  have "length (vin tx) = 1 \<longleftrightarrow> (\<exists>i. vin tx = [i])"
    by (cases "vin tx") auto
  then show ?thesis
    by (auto simp: IsCoinBase_def COutPoint_IsNull_def uint256_IsNull_def)
qed

theorem IsCoinBase_iff_witness:
  "IsCoinBase (scenario1_tx\<lparr> vin := [CTxIn_default] \<rparr>) \<and> \<not> IsCoinBase scenario1_tx
   \<and> \<not> IsCoinBase no_input_tx
   \<and> \<not> IsCoinBase (scenario1_tx\<lparr> vin := [CTxIn_default, CTxIn_default] \<rparr>)"
  using IsCoinBase_iff [of "scenario1_tx\<lparr> vin := [CTxIn_default] \<rparr>"]
    IsCoinBase_iff [of scenario1_tx] IsCoinBase_iff [of no_input_tx]
    IsCoinBase_iff [of "scenario1_tx\<lparr> vin := [CTxIn_default, CTxIn_default] \<rparr>"]
  by (simp add: scenario_defs CTxIn_default_def COutPoint_default_def)

text \<open>
  C8. A default-constructed outpoint has the all-zero hash and index 0xFFFFFFFF and is
  null; a default-constructed output has amount -1 and an empty locking script and is
  null; and whether an output is null is decided by its amount being -1 alone, whatever
  its script.
\<close>

theorem null_sentinels:
  "hash COutPoint_default = 0 \<and> n COutPoint_default = 0xFFFFFFFF
   \<and> COutPoint_IsNull COutPoint_default
   \<and> sint (nValue (CTxOut_default u)) = - 1 \<and> scriptPubKey (CTxOut_default u) = []
   \<and> CTxOut_IsNull (CTxOut_default u)
   \<and> (CTxOut_IsNull out \<longleftrightarrow> sint (nValue out) = - 1)
   \<and> (CTxOut_IsNull (out\<lparr> scriptPubKey := spk \<rparr>) \<longleftrightarrow> CTxOut_IsNull out)"
  by (simp add: COutPoint_default_def COutPoint_IsNull_def uint256_IsNull_def
      CTxOut_default_def CTxOut_SetNull_def CTxOut_IsNull_def sint_minus_one_iff)

theorem null_sentinels_witness:
  "COutPoint_IsNull COutPoint_default \<and> CTxOut_IsNull (CTxOut_default 7)
   \<and> \<not> CTxOut_IsNull scenario_output
   \<and> CTxOut_IsNull (scenario_output\<lparr> nValue := - 1 \<rparr>)"
  using null_sentinels [of 7 scenario_output "[]"]
    null_sentinels [of 7 "scenario_output\<lparr> nValue := - 1 \<rparr>" "[]"]
  by (simp add: scenario_output_def)

text \<open>
  C3. Serialization writes the dummy (the CompactSize of an empty input vector, the byte
  0) immediately followed by the flags byte exactly when the stream allows witnesses and
  some input has a non-empty witness stack; the flags byte is then 1 (bit 0 alone) and the
  witness section follows the outputs; otherwise the flags are 0 and the version is
  followed directly by the inputs, the outputs and the locktime.
\<close>

theorem dummy_and_flags:
  "(fAllowWitness ver \<and> HasWitness tx \<longrightarrow>
      Serialize_flags ver tx = 1
      \<and> SerializeTransaction ver tx =
          ser_writedata32 (nVersion tx) @ WriteCompactSize 0
          @ ser_writedata8 (Serialize_flags ver tx)
          @ Serialize_vector CTxIn_Serialize (vin tx)
          @ Serialize_vector CTxOut_Serialize (vout tx)
          @ Serialize_witnesses (vin tx) @ ser_writedata32 (nLockTime tx))
   \<and> (\<not> (fAllowWitness ver \<and> HasWitness tx) \<longrightarrow>
      Serialize_flags ver tx = 0
      \<and> SerializeTransaction ver tx =
          ser_writedata32 (nVersion tx) @ Serialize_vector CTxIn_Serialize (vin tx)
          @ Serialize_vector CTxOut_Serialize (vout tx) @ ser_writedata32 (nLockTime tx))
   \<and> (HasWitness tx \<longleftrightarrow> (\<exists>i \<in> set (vin tx). stack (scriptWitness i) \<noteq> []))
   \<and> WriteCompactSize 0 = [0] \<and> ser_writedata8 1 = [1]"
proof -
  have "WriteCompactSize 0 = [0]" "ser_writedata8 1 = [1]"
    by (simp_all add: WriteCompactSize_def ser_writedata8_def)
  moreover have "HasWitness tx \<longleftrightarrow> (\<exists>i \<in> set (vin tx). stack (scriptWitness i) \<noteq> [])"
    by (simp add: HasWitness_def HasWitness_loop_iff)
  moreover have "fAllowWitness ver \<and> HasWitness tx \<Longrightarrow> Serialize_flags ver tx = 1"
    and "\<not> (fAllowWitness ver \<and> HasWitness tx) \<Longrightarrow> Serialize_flags ver tx = 0"
    by (simp_all add: Serialize_flags_cases)
  ultimately show ?thesis
    using Serialize_legacy [of ver tx] Serialize_extended [of ver tx] by auto
qed

theorem dummy_and_flags_witness:
  "fAllowWitness 0 \<and> HasWitness scenario2_tx \<and> Serialize_flags 0 scenario2_tx = 1
   \<and> take 7 (SerializeTransaction 0 scenario2_tx) = [2, 0, 0, 0, 0, 1, 1]
   \<and> \<not> HasWitness scenario1_tx \<and> Serialize_flags 0 scenario1_tx = 0
   \<and> take 5 (SerializeTransaction 0 scenario1_tx) = [2, 0, 0, 0, 1]"
proof -
  have h: "fAllowWitness 0 \<and> HasWitness scenario2_tx"
    by (simp add: fAllowWitness_0 HasWitness_def scenario2_tx_def CScriptWitness_IsNull_def
        scenario2_stack)
  have h': "\<not> (fAllowWitness 0 \<and> HasWitness scenario1_tx)"
    by (simp add: HasWitness_def scenario1_tx_def CScriptWitness_IsNull_def
        scenario1_input_def)
  from h h' dummy_and_flags [of 0 scenario2_tx] dummy_and_flags [of 0 scenario1_tx]
  show ?thesis
    by (simp add: Serialize_vector_def ser_writedata32_def ser_writedata8_def
        WriteCompactSize_def le_bytes_numeral scenario1_tx_def scenario2_tx_def)
qed

text \<open>
  C4. When no input of a transaction has a non-empty witness stack, its serialization on
  a stream that allows witnesses is byte for byte the one on a stream that does not, the
  legacy format: version, inputs, outputs, locktime, with neither the dummy and flags
  pair nor a witness section.
\<close>

theorem no_witness_compaction:
  assumes "\<not> HasWitness tx"
  shows "SerializeTransaction ver tx = SerializeTransaction SERIALIZE_TRANSACTION_NO_WITNESS tx
    \<and> \<not> fAllowWitness SERIALIZE_TRANSACTION_NO_WITNESS
    \<and> SerializeTransaction ver tx =
        ser_writedata32 (nVersion tx) @ Serialize_vector CTxIn_Serialize (vin tx)
        @ Serialize_vector CTxOut_Serialize (vout tx) @ ser_writedata32 (nLockTime tx)"
  using assms Serialize_legacy [of ver tx]
    Serialize_legacy [of SERIALIZE_TRANSACTION_NO_WITNESS tx]
  by (simp add: not_fAllowWitness_NO_WITNESS)

theorem no_witness_compaction_witness:
  "fAllowWitness 0 \<and> \<not> HasWitness scenario1_tx
   \<and> SerializeTransaction 0 scenario1_tx
       = SerializeTransaction SERIALIZE_TRANSACTION_NO_WITNESS scenario1_tx"
proof -
  have h: "\<not> HasWitness scenario1_tx"
    by (simp add: HasWitness_def scenario1_tx_def CScriptWitness_IsNull_def
        scenario1_input_def)
  from no_witness_compaction [OF h, of 0] h show ?thesis
    by (simp add: fAllowWitness_0)
qed

text \<open>
  C5. Deserialization fails with the malformed-encoding error exactly when the flags
  check of line 268 is reached (the reads before it succeeded) and the flags byte, with bit
  0 cleared if it was set and witnesses are allowed, is not zero; on every other input the
  error is not raised. The check comes before the locktime is read: with such flags the
  error is raised whatever bytes remain in the stream.
\<close>

theorem malformed_encoding_iff:
  "(UnserializeTransaction tx ver s = Inl unknown_optional_data \<longleftrightarrow>
      (\<exists>tx1 f1 s1 tx2 f2 s2.
         Unserialize_vin_vout tx ver s = Inr ((tx1, f1), s1)
       \<and> Unserialize_witness_section ver (tx1, f1) s1 = Inr ((tx2, f2), s2)
       \<and> f2 = (if f1 AND 1 \<noteq> 0 \<and> fAllowWitness ver then f1 XOR 1 else f1)
       \<and> f2 \<noteq> 0))
   \<and> (f \<noteq> 0 \<longrightarrow> Unserialize_flags_locktime (tx', f) s' = Inl unknown_optional_data)"
proof -
  have "(\<exists>tx1 f1 s1 tx2 f2 s2.
           Unserialize_vin_vout tx ver s = Inr ((tx1, f1), s1)
         \<and> Unserialize_witness_section ver (tx1, f1) s1 = Inr ((tx2, f2), s2)
         \<and> f2 = (if f1 AND 1 \<noteq> 0 \<and> fAllowWitness ver then f1 XOR 1 else f1)
         \<and> f2 \<noteq> 0)
        \<longleftrightarrow>
        (\<exists>tx1 f1 s1 tx2 f2 s2.
           Unserialize_vin_vout tx ver s = Inr ((tx1, f1), s1)
         \<and> Unserialize_witness_section ver (tx1, f1) s1 = Inr ((tx2, f2), s2)
         \<and> f2 \<noteq> 0)"
    using witness_section_flags by blast
  then show ?thesis
    by (simp only: unknown_iff [of tx ver s] flags_locktime_unknown) simp
qed

theorem malformed_encoding_iff_witness:
  "UnserializeTransaction no_input_tx 0 [2, 0, 0, 0, 0, 2, 0, 0] = Inl unknown_optional_data
   \<and> (\<exists>tx1 s1 tx2 s2.
         Unserialize_vin_vout no_input_tx 0 [2, 0, 0, 0, 0, 2, 0, 0] = Inr ((tx1, 2), s1)
       \<and> Unserialize_witness_section 0 (tx1, 2) s1 = Inr ((tx2, 2), s2))
   \<and> UnserializeTransaction no_input_tx 0 [2, 0, 0, 0, 0, 1, 0, 0, 0, 0, 0, 0] =
       Inr (\<lparr> vin = [], vout = [], nVersion = 2, nLockTime = 0 \<rparr>, [])"
proof -
  have a: "UnserializeTransaction no_input_tx 0 [2, 0, 0, 0, 0, 2, 0, 0]
           = Inl unknown_optional_data"
    by (rule unknown_flag_read)
  have b: "Unserialize_vin_vout no_input_tx 0 [2, 0, 0, 0, 0, 2, 0, 0]
           = Inr ((no_input_tx\<lparr> nVersion := 2, vin := [], vout := [] \<rparr>, 2), [])"
    by (simp add: Unserialize_defs)
  have c: "UnserializeTransaction no_input_tx 0 [2, 0, 0, 0, 0, 1, 0, 0, 0, 0, 0, 0] =
       Inr (\<lparr> vin = [], vout = [], nVersion = 2, nLockTime = 0 \<rparr>, [])"
    by (simp add: Unserialize_defs)
  from a malformed_encoding_iff [of no_input_tx 0 "[2, 0, 0, 0, 0, 2, 0, 0]"]
  obtain tx1 f1 s1 tx2 f2 s2 where
    d: "Unserialize_vin_vout no_input_tx 0 [2, 0, 0, 0, 0, 2, 0, 0] = Inr ((tx1, f1), s1)"
       "Unserialize_witness_section 0 (tx1, f1) s1 = Inr ((tx2, f2), s2)"
       "f2 = (if f1 AND 1 \<noteq> 0 \<and> fAllowWitness 0 then f1 XOR 1 else f1)"
    by blast
  from d(1) b have f1: "f1 = 2" by simp
  then have f2: "f2 = 2" using d(3) by simp
  from d(1,2) have
    "Unserialize_vin_vout no_input_tx 0 [2, 0, 0, 0, 0, 2, 0, 0] = Inr ((tx1, 2), s1)
     \<and> Unserialize_witness_section 0 (tx1, 2) s1 = Inr ((tx2, 2), s2)"
    unfolding f1 f2 by simp
  then have "\<exists>tx1 s1 tx2 s2.
      Unserialize_vin_vout no_input_tx 0 [2, 0, 0, 0, 0, 2, 0, 0] = Inr ((tx1, 2), s1)
      \<and> Unserialize_witness_section 0 (tx1, 2) s1 = Inr ((tx2, 2), s2)"
    by blast
  with a c show ?thesis by simp
qed

text \<open>
  C9. When the stream's witness mode is disabled (bit 30, the
  \<open>SERIALIZE_TRANSACTION_NO_WITNESS\<close> bit, is set in its version), deserialization reads
  version, inputs, outputs and locktime and no flags byte; the local flags are 0 at the
  check, so the error \<open>Unknown transaction optional data\<close> is never raised, and a
  failure comes from the stream collaborator alone.
\<close>

theorem legacy_mode_never_malformed:
  assumes "\<not> fAllowWitness ver"
  shows "bit ver 30
    \<and> UnserializeTransaction tx ver s
        \<noteq> Inl (ios_base_failure ''Unknown transaction optional data'')
    \<and> (\<forall>e. UnserializeTransaction tx ver s = Inl e \<longrightarrow> stream_failure e)
    \<and> (\<forall>tx' f s'. Unserialize_vin_vout tx ver s = Inr ((tx', f), s') \<longrightarrow> f = 0)
    \<and> UnserializeTransaction tx ver s =
       (case ser_readdata32 s of Inl e \<Rightarrow> Inl e | Inr (v, s1) \<Rightarrow>
         (case Unserialize_vector CTxIn_Unserialize CTxIn_default s1 of Inl e \<Rightarrow> Inl e
          | Inr (vi, s2) \<Rightarrow>
            (case Unserialize_vector CTxOut_Unserialize (CTxOut_default 0) s2 of
               Inl e \<Rightarrow> Inl e
             | Inr (vo, s3) \<Rightarrow>
               (case ser_readdata32 s3 of Inl e \<Rightarrow> Inl e
                | Inr (lt, s4) \<Rightarrow>
                    Inr (\<lparr> vin = vi, vout = vo, nVersion = v, nLockTime = lt \<rparr>, s4)))))"
proof -
  have zero: "\<forall>tx' f s'. Unserialize_vin_vout tx ver s = Inr ((tx', f), s') \<longrightarrow> f = 0"
    using assms vin_vout_flags_legacy by blast
  have never: "UnserializeTransaction tx ver s \<noteq> Inl unknown_optional_data"
  proof
    assume "UnserializeTransaction tx ver s = Inl unknown_optional_data"
    then obtain tx1 f1 s1 tx2 f2 s2 where
      r: "Unserialize_vin_vout tx ver s = Inr ((tx1, f1), s1)"
         "Unserialize_witness_section ver (tx1, f1) s1 = Inr ((tx2, f2), s2)" "f2 \<noteq> 0"
      unfolding unknown_iff by blast
    from r(1) zero have "f1 = 0" by blast
    moreover from r(2) have "f2 = (if f1 AND 1 \<noteq> 0 \<and> fAllowWitness ver then f1 XOR 1 else f1)"
      by (rule witness_section_flags)
    ultimately show False using r(3) assms by simp
  qed
  then have fail: "\<forall>e. UnserializeTransaction tx ver s = Inl e \<longrightarrow> stream_failure e"
    using Unserialize_fail_cases by blast
  from never have never': "UnserializeTransaction tx ver s
        \<noteq> Inl (ios_base_failure ''Unknown transaction optional data'')"
    by (simp add: unknown_optional_data_def)
  from assms have "bit ver 30" by (simp add: NO_WITNESS_bit)
  with never' fail zero legacy_read [OF assms, of tx s] show ?thesis by blast
qed

theorem legacy_mode_never_malformed_witness:
  "\<not> fAllowWitness SERIALIZE_TRANSACTION_NO_WITNESS
   \<and> UnserializeTransaction scenario1_tx SERIALIZE_TRANSACTION_NO_WITNESS
        [2, 0, 0, 0, 0, 1, 0, 0, 0, 0, 0, 0, 0, 0, 0, 0, 0, 0, 0] = Inr (no_input_tx, [])
   \<and> UnserializeTransaction scenario1_tx SERIALIZE_TRANSACTION_NO_WITNESS
        [2, 0, 0, 0, 0, 1, 0, 0, 0, 0, 0, 0, 0, 0, 0, 0, 0, 0, 0]
        \<noteq> Inl (ios_base_failure ''Unknown transaction optional data'')"
  using legacy_mode_never_malformed [OF not_fAllowWitness_NO_WITNESS, of scenario1_tx
      "[2, 0, 0, 0, 0, 1, 0, 0, 0, 0, 0, 0, 0, 0, 0, 0, 0, 0, 0]"]
    no_input_read_back_legacy [of scenario1_tx] not_fAllowWitness_NO_WITNESS
  by blast

text \<open>
  C1, as the code has it. A transaction whose scripts, stacks and sequences the stream can
  read back, and which has an input or has no output, is read back from its own
  serialization (whatever follows it in the stream, whatever the target held): field for
  field, witness stacks included, when the stream allows witnesses; with every witness
  stack empty and all other fields equal when it does not, and then also for a
  transaction without inputs.
\<close>

theorem roundtrip_when_unambiguous:
  fixes tx :: CMutableTransaction
  assumes "tx_fits tx" and "fAllowWitness ver \<longrightarrow> tx_witness_fits tx"
    and "\<not> fAllowWitness ver \<or> vin tx \<noteq> [] \<or> vout tx = []"
  shows "UnserializeTransaction tx0 ver (SerializeTransaction ver tx @ s)
           = Inr (if fAllowWitness ver then tx
                  else tx\<lparr> vin := map no_witness (vin tx) \<rparr>, s)
    \<and> prevout (no_witness i) = prevout i \<and> scriptSig (no_witness i) = scriptSig i
    \<and> nSequence (no_witness i) = nSequence i \<and> stack (scriptWitness (no_witness i)) = []"
proof -
  have readback: "UnserializeTransaction tx0 ver (SerializeTransaction ver tx @ s)
           = Inr (if fAllowWitness ver then tx
                  else tx\<lparr> vin := map no_witness (vin tx) \<rparr>, s)"
  proof (cases "fAllowWitness ver")
    case False
    then show ?thesis using roundtrip_legacy_layout [of tx ver tx0 s] assms(1) by simp
  next
    case allow: True
    show ?thesis
    proof (cases "HasWitness tx")
      case True
      then show ?thesis using roundtrip_extended [of tx ver tx0 s] assms allow by simp
    next
      case nw: False
      then have same: "tx\<lparr> vin := map no_witness (vin tx) \<rparr> = tx"
        by (simp add: HasWitness_def map_no_witness_id)
      show ?thesis
      proof (cases "vin tx = []")
        case True
        then show ?thesis using roundtrip_empty [of ver tx tx0 s] assms(3) allow by simp
      next
        case False
        then show ?thesis using roundtrip_legacy_layout [of tx ver tx0 s] assms(1) nw allow same
          by simp
      qed
    qed
  qed
  then show ?thesis by (simp add: no_witness_def CTxIn_default_def)
qed

theorem roundtrip_when_unambiguous_witness:
  "tx_fits scenario2_tx \<and> tx_witness_fits scenario2_tx \<and> fAllowWitness 0
   \<and> vin scenario2_tx \<noteq> []
   \<and> UnserializeTransaction no_input_tx 0 (SerializeTransaction 0 scenario2_tx)
       = Inr (scenario2_tx, [])
   \<and> \<not> fAllowWitness SERIALIZE_TRANSACTION_NO_WITNESS
   \<and> UnserializeTransaction no_input_tx SERIALIZE_TRANSACTION_NO_WITNESS
        (SerializeTransaction SERIALIZE_TRANSACTION_NO_WITNESS scenario2_tx)
       = Inr (scenario1_tx, [])"
proof -
  have ne: "vin scenario2_tx \<noteq> []" by (simp add: scenario2_tx_def)
  have strip: "scenario2_tx\<lparr> vin := map no_witness (vin scenario2_tx) \<rparr> = scenario1_tx"
    by (simp add: scenario_defs no_witness_def CTxIn_default_def)
  have a: "UnserializeTransaction no_input_tx 0 (SerializeTransaction 0 scenario2_tx @ [])
           = Inr (scenario2_tx, [])"
    using roundtrip_when_unambiguous [of scenario2_tx 0 no_input_tx "[]"] scenario_fits ne
    by (simp add: fAllowWitness_0)
  have b: "UnserializeTransaction no_input_tx SERIALIZE_TRANSACTION_NO_WITNESS
             (SerializeTransaction SERIALIZE_TRANSACTION_NO_WITNESS scenario2_tx @ [])
           = Inr (scenario1_tx, [])"
    using roundtrip_when_unambiguous [of scenario2_tx SERIALIZE_TRANSACTION_NO_WITNESS
        no_input_tx "[]"] scenario_fits ne strip
    by (simp add: not_fAllowWitness_NO_WITNESS)
  from a b ne scenario_fits show ?thesis
    by (simp add: fAllowWitness_0 not_fAllowWitness_NO_WITNESS)
qed

text \<open>
  C1 as stated fails: on a stream that allows witnesses, the transaction with no input
  and one output is serialized in the legacy layout, whose empty input count and output
  count 1 are read back as the dummy and the flags. The decode succeeds with no output
  and seven bytes left over.
\<close>

theorem roundtrip_counterexample:
  "fAllowWitness 0 \<and> tx_fits no_input_tx \<and> tx_witness_fits no_input_tx
   \<and> UnserializeTransaction no_input_tx 0 (SerializeTransaction 0 no_input_tx)
       = Inr (no_input_tx\<lparr> vout := [] \<rparr>, [0, 0, 0, 0, 0, 0, 0])
   \<and> UnserializeTransaction no_input_tx 0 (SerializeTransaction 0 no_input_tx)
       \<noteq> Inr (no_input_tx, [])"
  using scenario_fits
  by (simp add: fAllowWitness_0 no_input_bytes no_input_read_back) (simp add: no_input_tx_def)

text \<open>
  C6, as the code has it. The witness-mode serialization of scenario 2 is 66 bytes long:
  version (4), dummy count 0, flags 1, input count 1 and the input (41), output count 1
  and the output (10), witness stack count 1, item length 1, item 0xAB, locktime (4).
\<close>

theorem scenario2_layout:
  "SerializeTransaction 0 scenario2_tx =
     ser_writedata32 2 @ [0] @ [1] @ ([1] @ CTxIn_Serialize scenario2_input)
     @ ([1] @ CTxOut_Serialize scenario_output) @ [1] @ [1] @ [0xAB] @ ser_writedata32 0
   \<and> length (ser_writedata32 2) = 4 \<and> length (CTxIn_Serialize scenario2_input) = 41
   \<and> length (CTxOut_Serialize scenario_output) = 10 \<and> length (ser_writedata32 0) = 4
   \<and> length (SerializeTransaction 0 scenario2_tx) = 66
   \<and> SerializeTransaction 0 scenario2_tx =
       [2, 0, 0, 0, 0, 1, 1,
        0, 0, 0, 0, 0, 0, 0, 0, 0, 0, 0, 0, 0, 0, 0, 0, 0, 0, 0, 0, 0, 0, 0, 0, 0, 0, 0, 0,
        0, 0, 0, 1, 0, 0, 0, 0, 0, 255, 255, 255, 255,
        1, 0, 242, 5, 42, 1, 0, 0, 0, 1, 81, 1, 1, 171, 0, 0, 0, 0]"
  by (simp add: scenario2_bytes scenario_input_bytes scenario_output_bytes ser_writedata32_def
      le_bytes_numeral)

text \<open>C6 as stated fails: the length is not 67.\<close>

theorem scenario2_length_counterexample:
  "length (SerializeTransaction 0 scenario2_tx) \<noteq> 67"
  by (simp add: scenario2_bytes scenario_input_bytes scenario_output_bytes)

text \<open>
  C10, as the code has it. Whenever deserializing into a \<open>CMutableTransaction\<close>
  succeeds, what it produces (fields and remaining stream) depends on the stream bytes and
  the stream's witness mode only, never on what the target held before. Whether it fails,
  and with which error, does not depend on the target either; but a failed read leaves the
  target partly written, its locktime still the one it held before.
\<close>

theorem target_ignored_on_success:
  "(UnserializeTransaction_inplace tx1 ver s = Inr r
      \<longrightarrow> UnserializeTransaction_inplace tx2 ver s = Inr r)
   \<and> (UnserializeTransaction_inplace tx1 ver s = Inl (e, t1)
      \<longrightarrow> nLockTime_left t1 = nLockTime tx1
          \<and> (\<exists>t2. UnserializeTransaction_inplace tx2 ver s = Inl (e, t2)
                   \<and> nLockTime_left t2 = nLockTime tx2))"
proof -
  have same: "map_sum fst id (UnserializeTransaction_inplace tx1 ver s)
              = map_sum fst id (UnserializeTransaction_inplace tx2 ver s)"
    using independent_of_target [of tx1 ver s tx2] by (simp add: inplace_agrees)
  have ok: "UnserializeTransaction_inplace tx2 ver s = Inr r"
    if "UnserializeTransaction_inplace tx1 ver s = Inr r"
    using same that by (cases "UnserializeTransaction_inplace tx2 ver s") auto
  have bad: "\<exists>t2. UnserializeTransaction_inplace tx2 ver s = Inl (e, t2)
                  \<and> nLockTime_left t2 = nLockTime tx2"
    if "UnserializeTransaction_inplace tx1 ver s = Inl (e, t1)"
  proof (cases "UnserializeTransaction_inplace tx2 ver s")
    case (Inl et)
    obtain e' t2 where et: "et = (e', t2)" by (cases et) auto
    from same that Inl et have "e' = e" by simp
    with Inl et inplace_locktime_kept [of tx2 ver s e t2] show ?thesis by simp
  next
    case (Inr r')
    with same that show ?thesis by simp
  qed
  show ?thesis using ok bad inplace_locktime_kept [of tx1 ver s e t1] by blast
qed

theorem target_ignored_on_success_witness:
  "UnserializeTransaction_inplace no_input_tx 0 (SerializeTransaction 0 scenario1_tx)
     = Inr (scenario1_tx, [])
   \<and> UnserializeTransaction_inplace scenario2_tx 0 (SerializeTransaction 0 scenario1_tx)
       = Inr (scenario1_tx, [])
   \<and> UnserializeTransaction_inplace scenario2_tx 0 [] = Inl (end_of_data, left_as scenario2_tx)
   \<and> (\<exists>t2. UnserializeTransaction_inplace scenario1_tx 0 [] = Inl (end_of_data, t2)
             \<and> nLockTime_left t2 = nLockTime scenario1_tx)"
proof -
  have "UnserializeTransaction no_input_tx 0 (SerializeTransaction 0 scenario1_tx @ [])
        = Inr (scenario1_tx, [])"
    using roundtrip_legacy_layout [of scenario1_tx 0 no_input_tx "[]"] scenario_fits(1)
    by (simp add: HasWitness_def scenario_defs CScriptWitness_IsNull_def no_witness_def
        CTxIn_default_def)
  then have a: "UnserializeTransaction_inplace no_input_tx 0 (SerializeTransaction 0 scenario1_tx)
                = Inr (scenario1_tx, [])"
    by (cases "UnserializeTransaction_inplace no_input_tx 0 (SerializeTransaction 0 scenario1_tx)")
       (auto simp: inplace_agrees)
  have b: "UnserializeTransaction_inplace scenario2_tx 0 []
           = Inl (end_of_data, left_as scenario2_tx)"
    by (simp add: UnserializeTransaction_inplace_def Unserialize_vin_vout_inplace_def
        ser_readdata32_def read_le_def stream_read_def)
  from a b
    target_ignored_on_success [of no_input_tx 0 "SerializeTransaction 0 scenario1_tx"
      "(scenario1_tx, [])" scenario2_tx]
    target_ignored_on_success [of scenario2_tx 0 "[]" _ scenario1_tx end_of_data
      "left_as scenario2_tx"]
  show ?thesis by blast
qed

text \<open>
  C10 as stated fails: at the bytes 02 00 00 00 00 02 00 00 the read throws at the flags
  check, after the version and the two vectors were overwritten and before the locktime is
  written, so two targets that differ in their locktime still differ after it; on an empty
  stream the read throws at once and the targets are left as they were.
\<close>

theorem target_kept_counterexample:
  "UnserializeTransaction_inplace no_input_tx 0 [2, 0, 0, 0, 0, 2, 0, 0]
     = Inl (unknown_optional_data,
            \<lparr> vin_left = Some [], vout_left = Some [], nVersion_left = 2, nLockTime_left = 0 \<rparr>)
   \<and> UnserializeTransaction_inplace (no_input_tx\<lparr> nLockTime := 7 \<rparr>) 0 [2, 0, 0, 0, 0, 2, 0, 0]
     = Inl (unknown_optional_data,
            \<lparr> vin_left = Some [], vout_left = Some [], nVersion_left = 2, nLockTime_left = 7 \<rparr>)
   \<and> UnserializeTransaction_inplace no_input_tx 0 [2, 0, 0, 0, 0, 2, 0, 0]
       \<noteq> UnserializeTransaction_inplace (no_input_tx\<lparr> nLockTime := 7 \<rparr>) 0
            [2, 0, 0, 0, 0, 2, 0, 0]
   \<and> UnserializeTransaction_inplace scenario1_tx 0 [] = Inl (end_of_data, left_as scenario1_tx)
   \<and> UnserializeTransaction_inplace scenario2_tx 0 [] = Inl (end_of_data, left_as scenario2_tx)
   \<and> left_as scenario1_tx \<noteq> left_as scenario2_tx"
proof -
  have a: "UnserializeTransaction_inplace (no_input_tx\<lparr> nLockTime := l \<rparr>) 0
             [2, 0, 0, 0, 0, 2, 0, 0]
     = Inl (unknown_optional_data,
            \<lparr> vin_left = Some [], vout_left = Some [], nVersion_left = 2, nLockTime_left = l \<rparr>)"
    for l
    by (simp add: UnserializeTransaction_inplace_def Unserialize_vin_vout_inplace_def
        Unserialize_witness_section_inplace_def Unserialize_flags_locktime_inplace_def
        left_as_def no_input_tx_def Unserialize_defs)
  have b: "UnserializeTransaction_inplace tx 0 [] = Inl (end_of_data, left_as tx)" for tx
    by (simp add: UnserializeTransaction_inplace_def Unserialize_vin_vout_inplace_def
        ser_readdata32_def read_le_def stream_read_def)
  have c: "left_as scenario1_tx \<noteq> left_as scenario2_tx"
    by (simp add: left_as_def scenario_defs)
  have d: "no_input_tx\<lparr> nLockTime := 0 \<rparr> = no_input_tx" by (simp add: no_input_tx_def)
  from a [of 0] a [of 7] b c d show ?thesis by simp
qed



end
